theory Spec2Isabelle
  imports Main
begin

section \<open>Values of the JavaScript runtime\<close>

text \<open>
  Event payloads are JavaScript objects. An object is an association list of its own
  properties, in insertion order, with pairwise different keys.
\<close>

datatype jsval =
    JStr string
  | JNum int
  | JBool bool
  | JNull
  | JObj "(string \<times> jsval) list"

type_synonym jsobj = "(string \<times> jsval) list"

text \<open>
  \<^verbatim>\<open>{ ...data, timestamp: v }\<close> copies the properties of \<open>data\<close> and then
  assigns the key: an existing property keeps its place and takes the new value, a
  missing one is appended.
\<close>

fun set_field :: "string \<Rightarrow> jsval \<Rightarrow> jsobj \<Rightarrow> jsobj" where
  "set_field k v [] = [(k, v)]"
| "set_field k v ((k', v') # ps) =
     (if k' = k then (k, v) # ps else (k', v') # set_field k v ps)"

definition get_field :: "jsobj \<Rightarrow> string \<Rightarrow> jsval option" where
  "get_field obj k = map_of obj k"

text \<open>A JavaScript \<open>Set\<close> of strings, in insertion order.\<close>

definition set_add :: "string \<Rightarrow> string list \<Rightarrow> string list" where
  "set_add x xs = (if x \<in> set xs then xs else xs @ [x])"

definition set_delete :: "string \<Rightarrow> string list \<Rightarrow> string list" where
  "set_delete x xs = removeAll x xs"

text \<open>
  A template literal renders a number that is an integer in decimal, with a leading
  minus sign when negative, and \<open>null\<close> as the word \<open>null\<close>. Hotel ids are
  32-bit integers of the database, far below the size at which JavaScript switches to
  exponent notation.
\<close>

definition digit_char :: "nat \<Rightarrow> char" where
  "digit_char d = ''0123456789'' ! d"

fun show_nat :: "nat \<Rightarrow> string" where
  "show_nat n =
     (if n < 10 then [digit_char n] else show_nat (n div 10) @ [digit_char (n mod 10)])"

declare show_nat.simps [simp del]

definition show_int :: "int \<Rightarrow> string" where
  "show_int i = (if i < 0 then CHR ''-'' # show_nat (nat (- i)) else show_nat (nat i))"

definition template_id :: "int option \<Rightarrow> string" where
  "template_id h = (case h of None \<Rightarrow> ''null'' | Some n \<Rightarrow> show_int n)"

text \<open>
  \<^verbatim>\<open>if (socket.hotelId)\<close> holds for a number other than 0 and fails for \<open>null\<close>
  and for 0. \<open>hotel_key\<close> is the hotel id under which such a test lets the code go on.
\<close>

definition hotel_key :: "int option \<Rightarrow> int option" where
  "hotel_key h = (case h of None \<Rightarrow> None | Some n \<Rightarrow> if n = 0 then None else Some n)"


section \<open>Records of the user store and of a socket\<close>

record hotel =
  hotel_id :: int
  hotel_name :: string
  subscriptionStatus :: string

text \<open>
  A row of \<open>users\<close> as \<open>prisma.user.findUnique\<close> returns it with
  \<open>include: { hotel: ... }\<close>: \<open>hotel_id\<close> is a nullable column, and \<open>hotel\<close>
  is the row it references, or \<open>null\<close>.
\<close>

record user =
  user_id :: int
  user_hotelId :: "int option"
  user_email :: string
  user_name :: string
  user_role :: string
  isActive :: bool
  user_hotel :: "hotel option"

text \<open>What \<open>jwt.verify\<close> decodes from a token it accepts.\<close>

record jwt_payload =
  userId :: int

text \<open>
  The lookup in the user store is the one operation of the handshake that leaves the
  process; it answers with a row, with no row, or it throws.
\<close>

datatype db_result = DbThrows | DbRow "user option"

record handshake =
  auth_token :: "string option"
  query_token :: "string option"

text \<open>
  A socket: its id, given by Socket.IO, and the fields the middleware attaches.
  Nothing assigns to them after the handshake.
\<close>

record socket =
  sock_id :: string
  sock_userId :: int
  sock_userRole :: string
  sock_hotelId :: "int option"
  sock_userName :: string
  sock_userEmail :: string

text \<open>The object stored in \<open>socketToUser\<close>.\<close>

record user_info =
  info_userId :: int
  info_hotelId :: "int option"
  info_role :: string
  info_name :: string
  info_email :: string


section \<open>\<open>setupMiddleware\<close>: authentication of a connection attempt\<close>

text \<open>
  \<open>jwt_verify\<close> stands for \<open>jwt.verify(token, process.env.JWT_SECRET)\<close>: it
  is \<open>None\<close> where the library throws (a malformed or expired token, a wrong
  signature). \<open>findUnique\<close> stands for the lookup by \<open>decoded.userId\<close>. The
  result is \<open>Inl msg\<close> for \<open>next(new Error(msg))\<close>, and the socket with its fields
  attached for \<open>next()\<close>. The \<open>catch\<close> block answers every throw with
  \<open>Authentication failed\<close>.
\<close>

definition extract_token :: "handshake \<Rightarrow> string option" where
  "extract_token hs =
     (case auth_token hs of
        None \<Rightarrow> query_token hs
      | Some t \<Rightarrow> if t \<noteq> [] then Some t else query_token hs)"

text \<open>The five assignments that attach the user to the socket.\<close>

definition attach_user :: "string \<Rightarrow> user \<Rightarrow> socket" where
  "attach_user sid u =
     \<lparr>sock_id = sid, sock_userId = user_id u, sock_userRole = user_role u,
      sock_hotelId = user_hotelId u, sock_userName = user_name u,
      sock_userEmail = user_email u\<rparr>"

text \<open>
  \<^verbatim>\<open>user.hotel && status !== 'active' && status !== 'trial'\<close>: the check of the
  subscription, which a user without a hotel skips.
\<close>

definition subscription_inactive :: "user \<Rightarrow> bool" where
  "subscription_inactive u =
     (case user_hotel u of
        None \<Rightarrow> False
      | Some h \<Rightarrow> subscriptionStatus h \<noteq> ''active'' \<and> subscriptionStatus h \<noteq> ''trial'')"

definition middleware ::
  "(string \<Rightarrow> jwt_payload option) \<Rightarrow> (int \<Rightarrow> db_result) \<Rightarrow> string \<Rightarrow> handshake
     \<Rightarrow> string + socket" where
  "middleware jwt_verify findUnique sid hs =
     (case extract_token hs of
        None \<Rightarrow> Inl ''Authentication required''
      | Some token \<Rightarrow>
          if token = [] then Inl ''Authentication required''
          else
            (case jwt_verify token of
               None \<Rightarrow> Inl ''Authentication failed''
             | Some decoded \<Rightarrow>
                 (case findUnique (userId decoded) of
                    DbThrows \<Rightarrow> Inl ''Authentication failed''
                  | DbRow None \<Rightarrow> Inl ''Invalid user''
                  | DbRow (Some u) \<Rightarrow>
                      if \<not> isActive u then Inl ''Invalid user''
                      else if subscription_inactive u then Inl ''Hotel subscription inactive''
                      else Inr (attach_user sid u))))"


section \<open>The server: presence maps, live sockets and rooms\<close>

text \<open>
  \<open>connectedUsers\<close> and \<open>socketToUser\<close> are the two maps of the class.
  \<open>sockets\<close> is \<open>io.sockets.sockets\<close>, the sockets Socket.IO holds as connected,
  and \<open>rooms\<close> is its adapter: the ids of the members of each room. The room that
  Socket.IO keeps for each socket under the socket's own id is left out: the class
  addresses rooms by the names it builds from a hotel id, never by a socket id.
\<close>

record server =
  connectedUsers :: "int \<rightharpoonup> string list"
  socketToUser :: "string \<rightharpoonup> user_info"
  sockets :: "socket list"
  rooms :: "string \<Rightarrow> string list"

definition init_server :: server where
  "init_server =
     \<lparr>connectedUsers = Map.empty, socketToUser = Map.empty, sockets = [],
      rooms = (\<lambda>r. [])\<rparr>"

text \<open>An emitted event as one recipient gets it: the socket id, the event name, the payload.\<close>

type_synonym delivery = "string \<times> string \<times> jsobj"

definition recipients :: "delivery list \<Rightarrow> string set" where
  "recipients ds = fst ` set ds"

subsection \<open>The operations of Socket.IO that the class calls\<close>

definition sockets_get :: "server \<Rightarrow> string \<Rightarrow> socket option" where
  "sockets_get st x = find (\<lambda>s. sock_id s = x) (sockets st)"

definition socket_join :: "string \<Rightarrow> string \<Rightarrow> server \<Rightarrow> server" where
  "socket_join sid room st = st\<lparr>rooms := (rooms st)(room := set_add sid (rooms st room))\<rparr>"

definition socket_emit :: "string \<Rightarrow> string \<Rightarrow> jsobj \<Rightarrow> delivery list" where
  "socket_emit sid ev data = [(sid, ev, data)]"

definition io_to_emit :: "server \<Rightarrow> string \<Rightarrow> string \<Rightarrow> jsobj \<Rightarrow> delivery list" where
  "io_to_emit st room ev data = map (\<lambda>x. (x, ev, data)) (rooms st room)"

definition socket_to_emit ::
  "server \<Rightarrow> string \<Rightarrow> string \<Rightarrow> string \<Rightarrow> jsobj \<Rightarrow> delivery list" where
  "socket_to_emit st sid room ev data =
     map (\<lambda>x. (x, ev, data)) (filter (\<lambda>x. x \<noteq> sid) (rooms st room))"

subsection \<open>Room names\<close>

definition hotel_room :: "int option \<Rightarrow> string" where
  "hotel_room h = ''hotel_'' @ template_id h"

definition hotel_sub_room :: "int option \<Rightarrow> string \<Rightarrow> string" where
  "hotel_sub_room h roomName = ''hotel_'' @ template_id h @ ''_'' @ roomName"

definition allowedRooms :: "string list" where
  "allowedRooms = [''manager_dashboard'', ''front_desk'', ''housekeeping'', ''room_updates'']"

subsection \<open>\<open>setupEventHandlers\<close>\<close>

text \<open>
  Each handler takes the state and the socket it was registered for and returns the new
  state with the events it emits. \<open>now\<close> is what \<open>new Date().toISOString()\<close>
  returns when the handler runs.
\<close>

definition user_info_of :: "socket \<Rightarrow> user_info" where
  "user_info_of s =
     \<lparr>info_userId = sock_userId s, info_hotelId = sock_hotelId s, info_role = sock_userRole s,
      info_name = sock_userName s, info_email = sock_userEmail s\<rparr>"

definition js_id :: "int option \<Rightarrow> jsval" where
  "js_id h = (case h of None \<Rightarrow> JNull | Some n \<Rightarrow> JNum n)"

definition connection :: "string \<Rightarrow> server \<Rightarrow> socket \<Rightarrow> server \<times> delivery list" where
  "connection now st s =
     (let st1 =
            (case hotel_key (sock_hotelId s) of
               None \<Rightarrow> st
             | Some h \<Rightarrow>
                 let st' = socket_join (sock_id s) (hotel_room (sock_hotelId s)) st;
                     ids = (case connectedUsers st' h of None \<Rightarrow> [] | Some xs \<Rightarrow> xs)
                 in st'\<lparr>connectedUsers := (connectedUsers st')(h \<mapsto> set_add (sock_id s) ids)\<rparr>);
          st2 = st1\<lparr>socketToUser := (socketToUser st1)(sock_id s \<mapsto> user_info_of s)\<rparr>;
          welcome =
            socket_emit (sock_id s) ''connected''
              [(''message'', JStr ''Connected to hotel management system''),
               (''user'', JObj [(''id'', JNum (sock_userId s)), (''name'', JStr (sock_userName s)),
                               (''role'', JStr (sock_userRole s)),
                               (''hotelId'', js_id (sock_hotelId s))])];
          joined =
            socket_to_emit st2 (sock_id s) (hotel_room (sock_hotelId s)) ''user_connected''
              [(''userName'', JStr (sock_userName s)), (''userRole'', JStr (sock_userRole s)),
               (''timestamp'', JStr now)]
      in (st2, welcome @ joined))"

definition join_room :: "server \<Rightarrow> socket \<Rightarrow> string \<Rightarrow> server \<times> delivery list" where
  "join_room st s roomName =
     (if roomName \<in> set allowedRooms
      then
        (socket_join (sock_id s) (hotel_sub_room (sock_hotelId s) roomName) st,
         socket_emit (sock_id s) ''room_joined'' [(''room'', JStr roomName)])
      else (st, []))"

definition disconnect :: "string \<Rightarrow> server \<Rightarrow> socket \<Rightarrow> server \<times> delivery list" where
  "disconnect now st s =
     (let st1 =
            (case hotel_key (sock_hotelId s) of
               None \<Rightarrow> st
             | Some h \<Rightarrow>
                 (case connectedUsers st h of
                    None \<Rightarrow> st
                  | Some xs \<Rightarrow>
                      let xs' = set_delete (sock_id s) xs
                      in if length xs' = 0
                         then st\<lparr>connectedUsers := (connectedUsers st)(h := None)\<rparr>
                         else st\<lparr>connectedUsers := (connectedUsers st)(h \<mapsto> xs')\<rparr>));
          st2 = st1\<lparr>socketToUser := (socketToUser st1)(sock_id s := None)\<rparr>;
          left =
            (case hotel_key (sock_hotelId s) of
               None \<Rightarrow> []
             | Some h \<Rightarrow>
                 socket_to_emit st2 (sock_id s) (hotel_room (sock_hotelId s)) ''user_disconnected''
                   [(''userName'', JStr (sock_userName s)), (''userRole'', JStr (sock_userRole s)),
                    (''timestamp'', JStr now)])
      in (st2, left))"

subsection \<open>What Socket.IO does around the handlers\<close>

text \<open>
  A socket that passed the middleware is entered in \<open>io.sockets.sockets\<close> and the
  \<open>connection\<close> event fires. When a socket closes, it leaves every room and is taken
  out of \<open>io.sockets.sockets\<close>, and then its \<open>disconnect\<close> event fires. A handshake
  the middleware refuses ends there: no socket is entered and no event fires.
\<close>

definition io_connection :: "string \<Rightarrow> server \<Rightarrow> socket \<Rightarrow> server \<times> delivery list" where
  "io_connection now st s = connection now (st\<lparr>sockets := sockets st @ [s]\<rparr>) s"

definition io_disconnect :: "string \<Rightarrow> server \<Rightarrow> socket \<Rightarrow> server \<times> delivery list" where
  "io_disconnect now st s =
     disconnect now
       (st\<lparr>sockets := filter (\<lambda>t. sock_id t \<noteq> sock_id s) (sockets st),
           rooms := (\<lambda>r. removeAll (sock_id s) (rooms st r))\<rparr>) s"

definition io_handshake ::
  "(string \<Rightarrow> jwt_payload option) \<Rightarrow> (int \<Rightarrow> db_result) \<Rightarrow> string \<Rightarrow> server \<Rightarrow> string
     \<Rightarrow> handshake \<Rightarrow> server \<times> (string + delivery list)" where
  "io_handshake jwt_verify findUnique now st sid hs =
     (case middleware jwt_verify findUnique sid hs of
        Inl msg \<Rightarrow> (st, Inl msg)
      | Inr s \<Rightarrow> (case io_connection now st s of (st', out) \<Rightarrow> (st', Inr out)))"


section \<open>The broadcast methods and the presence queries\<close>

definition broadcastToHotel ::
  "string \<Rightarrow> server \<Rightarrow> int \<Rightarrow> string \<Rightarrow> jsobj \<Rightarrow> delivery list" where
  "broadcastToHotel now st hotelId event data =
     io_to_emit st (hotel_room (Some hotelId)) event (set_field ''timestamp'' (JStr now) data)"

text \<open>
  \<open>broadcastToRole\<close> reads the clock once for each socket it emits to: \<open>clock k\<close>
  is the reading for the emit number \<open>k\<close> of the call.
\<close>

fun role_loop ::
  "server \<Rightarrow> string \<Rightarrow> string \<Rightarrow> jsobj \<Rightarrow> (nat \<Rightarrow> string) \<Rightarrow> nat \<Rightarrow> string list
     \<Rightarrow> delivery list" where
  "role_loop st role event data clock k [] = []"
| "role_loop st role event data clock k (socketId # rest) =
     (case sockets_get st socketId of
        None \<Rightarrow> role_loop st role event data clock k rest
      | Some s \<Rightarrow>
          if sock_userRole s = role
          then socket_emit (sock_id s) event (set_field ''timestamp'' (JStr (clock k)) data)
                 @ role_loop st role event data clock (Suc k) rest
          else role_loop st role event data clock k rest)"

definition broadcastToRole ::
  "(nat \<Rightarrow> string) \<Rightarrow> server \<Rightarrow> int \<Rightarrow> string \<Rightarrow> string \<Rightarrow> jsobj \<Rightarrow> delivery list" where
  "broadcastToRole clock st hotelId role event data =
     (case connectedUsers st hotelId of
        None \<Rightarrow> []
      | Some hotelUsers \<Rightarrow> role_loop st role event data clock 0 hotelUsers)"

definition broadcastToRoom ::
  "string \<Rightarrow> server \<Rightarrow> int \<Rightarrow> string \<Rightarrow> string \<Rightarrow> jsobj \<Rightarrow> delivery list" where
  "broadcastToRoom now st hotelId roomName event data =
     io_to_emit st (hotel_sub_room (Some hotelId) roomName) event
       (set_field ''timestamp'' (JStr now) data)"

definition getConnectedUsersCount :: "server \<Rightarrow> int \<Rightarrow> nat" where
  "getConnectedUsersCount st hotelId =
     (case connectedUsers st hotelId of None \<Rightarrow> 0 | Some xs \<Rightarrow> length xs)"

definition getConnectedUsers :: "server \<Rightarrow> int \<Rightarrow> user_info list" where
  "getConnectedUsers st hotelId =
     (case connectedUsers st hotelId of
        None \<Rightarrow> []
      | Some hotelUsers \<Rightarrow> List.map_filter (socketToUser st) hotelUsers)"


section \<open>The states the server can be in\<close>

text \<open>
  The server starts with nothing connected. A socket with an id that no connected socket
  has passes the middleware and connects; a connected socket asks to join a room; a
  connected socket closes. The broadcast methods and the queries do not change the state.
\<close>

inductive reachable :: "server \<Rightarrow> bool" where
  start: "reachable init_server"
| connect:
    "reachable st \<Longrightarrow> middleware jwt_verify findUnique sid hs = Inr s
       \<Longrightarrow> sid \<notin> sock_id ` set (sockets st)
       \<Longrightarrow> reachable (fst (io_connection now st s))"
| join:
    "reachable st \<Longrightarrow> s \<in> set (sockets st) \<Longrightarrow> reachable (fst (join_room st s roomName))"
| close:
    "reachable st \<Longrightarrow> s \<in> set (sockets st) \<Longrightarrow> reachable (fst (io_disconnect now st s))"

section \<open>Notions the properties are stated with\<close>

text \<open>The live connections of tenant \<open>T\<close>, in the order they connected.\<close>

definition tenant_sockets :: "server \<Rightarrow> int \<Rightarrow> socket list" where
  "tenant_sockets st T = filter (\<lambda>s. sock_hotelId s = Some T) (sockets st)"

text \<open>The rooms a socket is a member of.\<close>

definition memberships :: "server \<Rightarrow> string \<Rightarrow> string set" where
  "memberships st sid = {r. sid \<in> set (rooms st r)}"

text \<open>
  Four facts hold in every state the server can be in: the ids of the live sockets are
  pairwise different; \<open>connectedUsers\<close> holds, for each tenant that has live sockets,
  their ids in connection order, and no entry otherwise; \<open>socketToUser\<close> holds the
  identity of exactly the live sockets; and a room has only live members, each in a room
  named after its own hotel id.
\<close>

definition ids_distinct :: "server \<Rightarrow> bool" where
  "ids_distinct st = distinct (map sock_id (sockets st))"

definition presence_exact :: "server \<Rightarrow> bool" where
  "presence_exact st =
     (\<forall>T. connectedUsers st T =
        (if T = 0 \<or> tenant_sockets st T = [] then None
         else Some (map sock_id (tenant_sockets st T))))"

definition index_exact :: "server \<Rightarrow> bool" where
  "index_exact st = (\<forall>x. socketToUser st x = map_option user_info_of (sockets_get st x))"

definition rooms_scoped :: "server \<Rightarrow> bool" where
  "rooms_scoped st =
     (\<forall>r x. x \<in> set (rooms st r) \<longrightarrow>
        (\<exists>s \<in> set (sockets st). sock_id s = x \<and>
           ((hotel_key (sock_hotelId s) \<noteq> None \<and> r = hotel_room (sock_hotelId s))
            \<or> (\<exists>n \<in> set allowedRooms. r = hotel_sub_room (sock_hotelId s) n))))"


section \<open>A hotel, a rival and a platform administrator: concrete inputs\<close>

definition ex_now :: string where
  "ex_now = ''2025-08-18T09:04:41.000Z''"

definition ex_hotel1 :: hotel where
  "ex_hotel1 = \<lparr>hotel_id = 1, hotel_name = ''Grand'', subscriptionStatus = ''active''\<rparr>"

definition ex_hotel2 :: hotel where
  "ex_hotel2 = \<lparr>hotel_id = 2, hotel_name = ''Plaza'', subscriptionStatus = ''trial''\<rparr>"

definition ex_hotel3 :: hotel where
  "ex_hotel3 = \<lparr>hotel_id = 3, hotel_name = ''Harbour'', subscriptionStatus = ''suspended''\<rparr>"

definition ex_alice :: user where
  "ex_alice =
     \<lparr>user_id = 1, user_hotelId = Some 1, user_email = ''alice@grand.example'',
      user_name = ''Alice'', user_role = ''hotel_manager'', isActive = True,
      user_hotel = Some ex_hotel1\<rparr>"

definition ex_bob :: user where
  "ex_bob =
     \<lparr>user_id = 2, user_hotelId = Some 2, user_email = ''bob@plaza.example'',
      user_name = ''Bob'', user_role = ''hotel_manager'', isActive = True,
      user_hotel = Some ex_hotel2\<rparr>"

definition ex_carol :: user where
  "ex_carol =
     \<lparr>user_id = 3, user_hotelId = Some 1, user_email = ''carol@grand.example'',
      user_name = ''Carol'', user_role = ''front_desk'', isActive = True,
      user_hotel = Some ex_hotel1\<rparr>"

definition ex_admin :: user where
  "ex_admin =
     \<lparr>user_id = 4, user_hotelId = None, user_email = ''root@platform.example'',
      user_name = ''Root'', user_role = ''platform_admin'', isActive = True,
      user_hotel = None\<rparr>"

definition ex_dave :: user where
  "ex_dave =
     \<lparr>user_id = 5, user_hotelId = Some 1, user_email = ''dave@grand.example'',
      user_name = ''Dave'', user_role = ''front_desk'', isActive = False,
      user_hotel = Some ex_hotel1\<rparr>"

definition ex_erin :: user where
  "ex_erin =
     \<lparr>user_id = 6, user_hotelId = Some 3, user_email = ''erin@harbour.example'',
      user_name = ''Erin'', user_role = ''hotel_owner'', isActive = True,
      user_hotel = Some ex_hotel3\<rparr>"

text \<open>
  A user store with six rows, where the lookup of id 99 throws, and a verifier that
  accepts one token for each of the ids 1 to 6 and for 99 and 7, and rejects the rest.
\<close>

definition ex_findUnique :: "int \<Rightarrow> db_result" where
  "ex_findUnique i =
     (if i = 1 then DbRow (Some ex_alice)
      else if i = 2 then DbRow (Some ex_bob)
      else if i = 3 then DbRow (Some ex_carol)
      else if i = 4 then DbRow (Some ex_admin)
      else if i = 5 then DbRow (Some ex_dave)
      else if i = 6 then DbRow (Some ex_erin)
      else if i = 99 then DbThrows
      else DbRow None)"

definition ex_verify :: "string \<Rightarrow> jwt_payload option" where
  "ex_verify t =
     (if t = ''alice'' then Some \<lparr>userId = 1\<rparr>
      else if t = ''bob'' then Some \<lparr>userId = 2\<rparr>
      else if t = ''carol'' then Some \<lparr>userId = 3\<rparr>
      else if t = ''admin'' then Some \<lparr>userId = 4\<rparr>
      else if t = ''dave'' then Some \<lparr>userId = 5\<rparr>
      else if t = ''erin'' then Some \<lparr>userId = 6\<rparr>
      else if t = ''gone'' then Some \<lparr>userId = 7\<rparr>
      else if t = ''outage'' then Some \<lparr>userId = 99\<rparr>
      else None)"

definition ex_hs :: "string \<Rightarrow> handshake" where
  "ex_hs t = \<lparr>auth_token = Some t, query_token = None\<rparr>"

definition ex_sockA :: socket where "ex_sockA = attach_user ''sA'' ex_alice"
definition ex_sockA2 :: socket where "ex_sockA2 = attach_user ''sA2'' ex_alice"
definition ex_sockB :: socket where "ex_sockB = attach_user ''sB'' ex_bob"
definition ex_sockC :: socket where "ex_sockC = attach_user ''sC'' ex_carol"
definition ex_sockP :: socket where "ex_sockP = attach_user ''sP'' ex_admin"

definition ex_st1 :: server where
  "ex_st1 = fst (io_connection ex_now init_server ex_sockA)"

definition ex_st2 :: server where
  "ex_st2 = fst (io_connection ex_now ex_st1 ex_sockB)"

definition ex_st3 :: server where
  "ex_st3 = fst (io_connection ex_now ex_st2 ex_sockC)"

definition ex_dup :: server where
  "ex_dup = fst (io_connection ex_now ex_st1 ex_sockA2)"

definition ex_adm :: server where
  "ex_adm = fst (io_connection ex_now ex_st1 ex_sockP)"

definition ex_data :: jsobj where
  "ex_data = [(''taskId'', JNum 5), (''timestamp'', JStr ''1999-12-31T23:59:59.000Z'')]"

definition ex_clock :: "nat \<Rightarrow> string" where
  "ex_clock k = (if k = 0 then ''2025-08-18T09:04:41.000Z'' else ''2025-08-18T09:04:41.001Z'')"

definition ex_st4 :: server where
  "ex_st4 = fst (join_room ex_st3 ex_sockC ''housekeeping'')"

definition ex_st5 :: server where
  "ex_st5 = fst (join_room ex_st4 ex_sockB ''housekeeping'')"


section \<open>Decimal rendering and room names\<close>

lemma digit_char_cases:
  "d < 10 \<Longrightarrow> digit_char d \<in> set ''0123456789''"
  unfolding digit_char_def by (rule nth_mem) simp

lemma digit_char_inj: "a < 10 \<Longrightarrow> b < 10 \<Longrightarrow> digit_char a = digit_char b \<Longrightarrow> a = b"
proof -
  assume a: "a < 10" and b: "b < 10" and e: "digit_char a = digit_char b"
  have d: "distinct ''0123456789''" by simp
  from e have "''0123456789'' ! a = ''0123456789'' ! b" by (simp add: digit_char_def)
  with d a b show "a = b" by (simp add: nth_eq_iff_index_eq)
qed

lemma show_nat_chars: "set (show_nat n) \<subseteq> set ''0123456789''"
proof (induction n rule: show_nat.induct)
  case (1 n)
  show ?case
  proof (cases "n < 10")
    case True
    then show ?thesis using digit_char_cases [of n] by (subst show_nat.simps) simp
  next
    case False
    have "n mod 10 < 10" by simp
    from digit_char_cases [OF this] 1 [OF False] False show ?thesis
      by (subst show_nat.simps) simp
  qed
qed

lemma show_nat_nonempty: "show_nat n \<noteq> []"
  by (subst show_nat.simps) simp

lemma show_nat_inj: "show_nat m = show_nat n \<Longrightarrow> m = n"
proof (induction m arbitrary: n rule: show_nat.induct)
  case (1 m)
  show ?case
  proof (cases "m < 10")
    case True
    then have lm: "show_nat m = [digit_char m]" by (subst show_nat.simps) simp
    show ?thesis
    proof (cases "n < 10")
      case n: True
      then have "show_nat n = [digit_char n]" by (subst show_nat.simps) simp
      with lm "1.prems" True n show ?thesis by (simp add: digit_char_inj)
    next
      case n: False
      then have "show_nat n = show_nat (n div 10) @ [digit_char (n mod 10)]"
        by (subst show_nat.simps) simp
      with lm "1.prems" show_nat_nonempty [of "n div 10"] show ?thesis by simp
    qed
  next
    case False
    then have lm: "show_nat m = show_nat (m div 10) @ [digit_char (m mod 10)]"
      by (subst show_nat.simps) simp
    show ?thesis
    proof (cases "n < 10")
      case n: True
      then have "show_nat n = [digit_char n]" by (subst show_nat.simps) simp
      with lm "1.prems" show_nat_nonempty [of "m div 10"] show ?thesis by simp
    next
      case n: False
      then have ln: "show_nat n = show_nat (n div 10) @ [digit_char (n mod 10)]"
        by (subst show_nat.simps) simp
      from lm ln "1.prems" have e1: "show_nat (m div 10) = show_nat (n div 10)"
        and e2: "digit_char (m mod 10) = digit_char (n mod 10)" by simp_all
      from "1.IH" [OF False e1] have q: "m div 10 = n div 10" .
      from e2 have r: "m mod 10 = n mod 10" by (simp add: digit_char_inj)
      from q r show ?thesis by (metis div_mult_mod_eq)
    qed
  qed
qed


lemma show_int_chars: "set (show_int i) \<subseteq> set ''-0123456789''"
proof -
  have sub: "set ''0123456789'' \<subseteq> set ''-0123456789''" by simp
  have "set (show_nat (nat i)) \<subseteq> set ''-0123456789''"
    using show_nat_chars [of "nat i"] sub by (rule subset_trans)
  moreover have "set (show_nat (nat (- i))) \<subseteq> set ''-0123456789''"
    using show_nat_chars [of "nat (- i)"] sub by (rule subset_trans)
  ultimately show ?thesis by (simp add: show_int_def)
qed

lemma show_int_no_underscore: "CHR ''_'' \<notin> set (show_int i)"
proof
  assume "CHR ''_'' \<in> set (show_int i)"
  with show_int_chars [of i] have "CHR ''_'' \<in> set ''-0123456789''" by (rule subsetD)
  then show False by simp
qed

lemma show_nat_no_minus: "CHR ''-'' \<notin> set (show_nat n)"
proof
  assume "CHR ''-'' \<in> set (show_nat n)"
  with show_nat_chars [of n] have "CHR ''-'' \<in> set ''0123456789''" by (rule subsetD)
  then show False by simp
qed

lemma show_int_inj: "show_int a = show_int b \<Longrightarrow> a = b"
proof -
  assume e: "show_int a = show_int b"
  have hd_nat: "\<And>n. hd (show_nat n) \<noteq> CHR ''-''"
    using show_nat_no_minus show_nat_nonempty by (metis hd_in_set)
  show "a = b"
  proof (cases "a < 0")
    case True
    show ?thesis
    proof (cases "b < 0")
      case b: True
      with True e have "show_nat (nat (- a)) = show_nat (nat (- b))" by (simp add: show_int_def)
      then have "nat (- a) = nat (- b)" by (rule show_nat_inj)
      with True b show ?thesis by simp
    next
      case b: False
      with True e have "CHR ''-'' # show_nat (nat (- a)) = show_nat (nat b)" by (simp add: show_int_def)
      then have "hd (show_nat (nat b)) = CHR ''-''" by (metis list.sel(1))
      with hd_nat show ?thesis by blast
    qed
  next
    case False
    show ?thesis
    proof (cases "b < 0")
      case b: True
      with False e have "show_nat (nat a) = CHR ''-'' # show_nat (nat (- b))" by (simp add: show_int_def)
      then have "hd (show_nat (nat a)) = CHR ''-''" by (metis list.sel(1))
      with hd_nat show ?thesis by blast
    next
      case b: False
      with False e have "show_nat (nat a) = show_nat (nat b)" by (simp add: show_int_def)
      then have "nat a = nat b" by (rule show_nat_inj)
      with False b show ?thesis by simp
    qed
  qed
qed

lemma split_at_mark:
  "c \<notin> set a \<Longrightarrow> c \<notin> set b \<Longrightarrow> a @ c # x = b @ c # y \<Longrightarrow> a = b \<and> x = y"
proof (induction a arbitrary: b)
  case Nil
  then show ?case by (cases b) auto
next
  case (Cons h a)
  then show ?case by (cases b) auto
qed

lemma hotel_room_inj: "hotel_room (Some a) = hotel_room (Some b) \<Longrightarrow> a = b"
  by (simp add: hotel_room_def template_id_def show_int_inj)

lemma hotel_sub_room_inj:
  "hotel_sub_room (Some a) n = hotel_sub_room (Some b) m \<Longrightarrow> a = b \<and> n = m"
proof -
  assume "hotel_sub_room (Some a) n = hotel_sub_room (Some b) m"
  then have "show_int a @ CHR ''_'' # n = show_int b @ CHR ''_'' # m"
    by (simp add: hotel_sub_room_def template_id_def)
  from split_at_mark [OF show_int_no_underscore show_int_no_underscore this]
  show ?thesis by (auto dest: show_int_inj)
qed

lemma hotel_room_not_sub: "hotel_room (Some a) \<noteq> hotel_sub_room (Some b) m"
proof
  assume "hotel_room (Some a) = hotel_sub_room (Some b) m"
  then have "show_int a = show_int b @ CHR ''_'' # m"
    by (simp add: hotel_room_def hotel_sub_room_def template_id_def)
  then have "CHR ''_'' \<in> set (show_int a)" by simp
  with show_int_no_underscore show False by blast
qed


section \<open>What each handler does to each field of the state\<close>

lemma middleware_sock_id: "middleware v f sid hs = Inr s \<Longrightarrow> sock_id s = sid"
  by (auto simp: middleware_def attach_user_def split: option.splits if_splits db_result.splits)

lemma sockets_io_connection [simp]: "sockets (fst (io_connection now st s)) = sockets st @ [s]"
  by (simp add: io_connection_def connection_def socket_join_def Let_def split: option.splits)

lemma socketToUser_io_connection [simp]:
  "socketToUser (fst (io_connection now st s)) = (socketToUser st)(sock_id s \<mapsto> user_info_of s)"
  by (simp add: io_connection_def connection_def socket_join_def Let_def split: option.splits)

lemma connectedUsers_io_connection:
  "connectedUsers (fst (io_connection now st s)) =
     (case hotel_key (sock_hotelId s) of
        None \<Rightarrow> connectedUsers st
      | Some h \<Rightarrow> (connectedUsers st)
          (h \<mapsto> set_add (sock_id s) (case connectedUsers st h of None \<Rightarrow> [] | Some xs \<Rightarrow> xs)))"
  by (simp add: io_connection_def connection_def socket_join_def Let_def split: option.splits)

lemma rooms_io_connection:
  "rooms (fst (io_connection now st s)) =
     (case hotel_key (sock_hotelId s) of
        None \<Rightarrow> rooms st
      | Some h \<Rightarrow> (rooms st)
          (hotel_room (sock_hotelId s) := set_add (sock_id s) (rooms st (hotel_room (sock_hotelId s)))))"
  by (simp add: io_connection_def connection_def socket_join_def Let_def split: option.splits)

lemma sockets_join_room [simp]: "sockets (fst (join_room st s n)) = sockets st"
  by (simp add: join_room_def socket_join_def)

lemma socketToUser_join_room [simp]: "socketToUser (fst (join_room st s n)) = socketToUser st"
  by (simp add: join_room_def socket_join_def)

lemma connectedUsers_join_room [simp]: "connectedUsers (fst (join_room st s n)) = connectedUsers st"
  by (simp add: join_room_def socket_join_def)

lemma rooms_join_room:
  "rooms (fst (join_room st s n)) =
     (if n \<in> set allowedRooms
      then (rooms st)(hotel_sub_room (sock_hotelId s) n :=
             set_add (sock_id s) (rooms st (hotel_sub_room (sock_hotelId s) n)))
      else rooms st)"
  by (simp add: join_room_def socket_join_def)

lemma sockets_disconnect [simp]: "sockets (fst (disconnect now st s)) = sockets st"
  by (simp add: disconnect_def Let_def split: option.splits)

lemma rooms_disconnect [simp]: "rooms (fst (disconnect now st s)) = rooms st"
  by (simp add: disconnect_def Let_def split: option.splits)

lemma socketToUser_disconnect [simp]:
  "socketToUser (fst (disconnect now st s)) = (socketToUser st)(sock_id s := None)"
  by (simp add: disconnect_def Let_def split: option.splits)

lemma connectedUsers_disconnect:
  "connectedUsers (fst (disconnect now st s)) =
     (case hotel_key (sock_hotelId s) of
        None \<Rightarrow> connectedUsers st
      | Some h \<Rightarrow>
          (case connectedUsers st h of
             None \<Rightarrow> connectedUsers st
           | Some xs \<Rightarrow>
               if removeAll (sock_id s) xs = [] then (connectedUsers st)(h := None)
               else (connectedUsers st)(h \<mapsto> removeAll (sock_id s) xs)))"
  by (simp add: disconnect_def Let_def set_delete_def split: option.splits)

lemma sockets_io_disconnect [simp]:
  "sockets (fst (io_disconnect now st s)) = filter (\<lambda>t. sock_id t \<noteq> sock_id s) (sockets st)"
  by (simp add: io_disconnect_def)

lemma rooms_io_disconnect [simp]:
  "rooms (fst (io_disconnect now st s)) = (\<lambda>r. removeAll (sock_id s) (rooms st r))"
  by (simp add: io_disconnect_def)

lemma socketToUser_io_disconnect [simp]:
  "socketToUser (fst (io_disconnect now st s)) = (socketToUser st)(sock_id s := None)"
  by (simp add: io_disconnect_def)

lemma connectedUsers_io_disconnect:
  "connectedUsers (fst (io_disconnect now st s)) =
     (case hotel_key (sock_hotelId s) of
        None \<Rightarrow> connectedUsers st
      | Some h \<Rightarrow>
          (case connectedUsers st h of
             None \<Rightarrow> connectedUsers st
           | Some xs \<Rightarrow>
               if removeAll (sock_id s) xs = [] then (connectedUsers st)(h := None)
               else (connectedUsers st)(h \<mapsto> removeAll (sock_id s) xs)))"
  by (simp add: io_disconnect_def connectedUsers_disconnect split: option.splits)


lemma sockets_get_sock_id: "sockets_get st x = Some s \<Longrightarrow> sock_id s = x \<and> s \<in> set (sockets st)"
  unfolding sockets_get_def by (auto simp: find_Some_iff)

lemma find_by_id:
  "distinct (map sock_id ss) \<Longrightarrow> s \<in> set ss \<Longrightarrow> find (\<lambda>t. sock_id t = sock_id s) ss = Some s"
  by (induction ss) (auto simp: image_iff)

lemma sockets_get_live:
  "ids_distinct st \<Longrightarrow> s \<in> set (sockets st) \<Longrightarrow> sockets_get st (sock_id s) = Some s"
  unfolding sockets_get_def ids_distinct_def by (rule find_by_id)

lemma find_None_fresh: "x \<notin> sock_id ` set ss \<Longrightarrow> find (\<lambda>t. sock_id t = x) ss = None"
  by (induction ss) auto

lemma removeAll_map_ids:
  "removeAll x (map sock_id ss) = map sock_id (filter (\<lambda>t. sock_id t \<noteq> x) ss)"
  by (induction ss) auto

lemma hotel_key_Some: "hotel_key h = Some k \<longleftrightarrow> h = Some k \<and> k \<noteq> 0"
  by (auto simp: hotel_key_def split: option.splits if_splits)

lemma hotel_key_None: "hotel_key h = None \<longleftrightarrow> h = None \<or> h = Some 0"
  by (auto simp: hotel_key_def split: option.splits if_splits)

subsection \<open>The ids of the live sockets stay pairwise different\<close>

lemma ids_distinct_connect:
  "ids_distinct st \<Longrightarrow> sock_id s \<notin> sock_id ` set (sockets st)
     \<Longrightarrow> ids_distinct (fst (io_connection now st s))"
  by (simp add: ids_distinct_def)

lemma ids_distinct_join: "ids_distinct st \<Longrightarrow> ids_distinct (fst (join_room st s n))"
  by (simp add: ids_distinct_def)

lemma ids_distinct_close: "ids_distinct st \<Longrightarrow> ids_distinct (fst (io_disconnect now st s))"
  by (simp add: ids_distinct_def distinct_map_filter)

subsection \<open>\<open>connectedUsers\<close> follows the live sockets\<close>

lemma presence_exact_connect:
  assumes p: "presence_exact st" and fresh: "sock_id s \<notin> sock_id ` set (sockets st)"
  shows "presence_exact (fst (io_connection now st s))"
proof -
  have notin: "\<And>T. sock_id s \<notin> set (map sock_id (tenant_sockets st T))"
    using fresh by (auto simp: tenant_sockets_def)
  show ?thesis
    unfolding presence_exact_def
  proof
    fix T
    from p have pT: "\<And>U. connectedUsers st U =
        (if U = 0 \<or> tenant_sockets st U = [] then None else Some (map sock_id (tenant_sockets st U)))"
      by (simp add: presence_exact_def)
    show "connectedUsers (fst (io_connection now st s)) T =
        (if T = 0 \<or> tenant_sockets (fst (io_connection now st s)) T = [] then None
         else Some (map sock_id (tenant_sockets (fst (io_connection now st s)) T)))"
    proof (cases "hotel_key (sock_hotelId s)")
      case None
      then have "sock_hotelId s = Some T \<Longrightarrow> T = 0" by (auto simp: hotel_key_None)
      with None pT [of T] show ?thesis
        by (auto simp: connectedUsers_io_connection tenant_sockets_def)
    next
      case (Some h)
      then have h: "sock_hotelId s = Some h" "h \<noteq> 0" by (simp_all add: hotel_key_Some)
      show ?thesis
      proof (cases "T = h")
        case True
        with Some h pT [of h] notin [of h] show ?thesis
          by (auto simp: connectedUsers_io_connection tenant_sockets_def set_add_def)
      next
        case False
        with Some h pT [of T] show ?thesis
          by (auto simp: connectedUsers_io_connection tenant_sockets_def)
      qed
    qed
  qed
qed

lemma presence_exact_join: "presence_exact st \<Longrightarrow> presence_exact (fst (join_room st s n))"
  by (simp add: presence_exact_def tenant_sockets_def)


lemma same_id_same_socket:
  "ids_distinct st \<Longrightarrow> s \<in> set (sockets st) \<Longrightarrow> t \<in> set (sockets st)
     \<Longrightarrow> sock_id t = sock_id s \<Longrightarrow> t = s"
  unfolding ids_distinct_def by (auto simp: distinct_map inj_on_def)

lemma tenant_sockets_close:
  "tenant_sockets (fst (io_disconnect now st s)) T =
     filter (\<lambda>t. sock_id t \<noteq> sock_id s) (tenant_sockets st T)"
  by (auto simp: tenant_sockets_def intro!: filter_cong)

lemma tenant_sockets_close_other:
  assumes "ids_distinct st" "s \<in> set (sockets st)" "sock_hotelId s \<noteq> Some T"
  shows "tenant_sockets (fst (io_disconnect now st s)) T = tenant_sockets st T"
proof -
  have "\<forall>t \<in> set (tenant_sockets st T). sock_id t \<noteq> sock_id s"
  proof
    fix t assume t: "t \<in> set (tenant_sockets st T)"
    then have "t \<in> set (sockets st)" "sock_hotelId t = Some T" by (simp_all add: tenant_sockets_def)
    with assms same_id_same_socket [of st s t] show "sock_id t \<noteq> sock_id s" by auto
  qed
  then show ?thesis by (simp add: tenant_sockets_close)
qed

lemma presence_exact_close:
  assumes p: "presence_exact st" and d: "ids_distinct st" and live: "s \<in> set (sockets st)"
  shows "presence_exact (fst (io_disconnect now st s))"
  unfolding presence_exact_def
proof
  fix T
  let ?st' = "fst (io_disconnect now st s)"
  from p have pT: "\<And>U. connectedUsers st U =
      (if U = 0 \<or> tenant_sockets st U = [] then None else Some (map sock_id (tenant_sockets st U)))"
    by (simp add: presence_exact_def)
  show "connectedUsers ?st' T =
      (if T = 0 \<or> tenant_sockets ?st' T = [] then None else Some (map sock_id (tenant_sockets ?st' T)))"
  proof (cases "hotel_key (sock_hotelId s)")
    case None
    show ?thesis
    proof (cases "T = 0")
      case True
      with None pT [of T] show ?thesis by (simp add: connectedUsers_io_disconnect)
    next
      case False
      with None have "sock_hotelId s \<noteq> Some T" by (auto simp: hotel_key_None)
      from tenant_sockets_close_other [OF d live this] None pT [of T] show ?thesis
        by (simp add: connectedUsers_io_disconnect)
    qed
  next
    case (Some h)
    then have h: "sock_hotelId s = Some h" "h \<noteq> 0" by (simp_all add: hotel_key_Some)
    from live h have mem: "s \<in> set (tenant_sockets st h)" by (simp add: tenant_sockets_def)
    then have ne: "tenant_sockets st h \<noteq> []" by auto
    with pT [of h] h have cu: "connectedUsers st h = Some (map sock_id (tenant_sockets st h))" by simp
    have rm: "removeAll (sock_id s) (map sock_id (tenant_sockets st h)) =
        map sock_id (tenant_sockets ?st' h)"
      by (simp add: removeAll_map_ids tenant_sockets_close)
    show ?thesis
    proof (cases "T = h")
      case True
      with Some cu rm h show ?thesis by (simp add: connectedUsers_io_disconnect)
    next
      case False
      with h have "sock_hotelId s \<noteq> Some T" by simp
      from tenant_sockets_close_other [OF d live this] Some cu False pT [of T] show ?thesis
        by (auto simp: connectedUsers_io_disconnect)
    qed
  qed
qed

subsection \<open>\<open>socketToUser\<close> follows the live sockets\<close>

lemma find_filter_implied:
  "(\<And>t. P t \<Longrightarrow> Q t) \<Longrightarrow> find P (filter Q xs) = find P xs"
  by (induction xs) auto

lemma find_filter_excluded:
  "(\<And>t. P t \<Longrightarrow> \<not> Q t) \<Longrightarrow> find P (filter Q xs) = None"
  by (induction xs) auto

lemma find_snoc:
  "find P (xs @ [y]) = (case find P xs of Some t \<Rightarrow> Some t | None \<Rightarrow> if P y then Some y else None)"
  by (induction xs) auto

lemma index_exact_connect:
  assumes i: "index_exact st" and fresh: "sock_id s \<notin> sock_id ` set (sockets st)"
  shows "index_exact (fst (io_connection now st s))"
  unfolding index_exact_def
proof
  fix x
  from i have ix: "socketToUser st x = map_option user_info_of (sockets_get st x)"
    by (simp add: index_exact_def)
  show "socketToUser (fst (io_connection now st s)) x =
      map_option user_info_of (sockets_get (fst (io_connection now st s)) x)"
  proof (cases "x = sock_id s")
    case True
    with find_None_fresh [OF fresh] show ?thesis by (simp add: sockets_get_def find_snoc)
  next
    case False
    with ix show ?thesis by (simp add: sockets_get_def find_snoc split: option.splits)
  qed
qed

lemma index_exact_join: "index_exact st \<Longrightarrow> index_exact (fst (join_room st s n))"
  by (simp add: index_exact_def sockets_get_def)

lemma index_exact_close:
  assumes i: "index_exact st"
  shows "index_exact (fst (io_disconnect now st s))"
  unfolding index_exact_def
proof
  fix x
  from i have ix: "socketToUser st x = map_option user_info_of (sockets_get st x)"
    by (simp add: index_exact_def)
  show "socketToUser (fst (io_disconnect now st s)) x =
      map_option user_info_of (sockets_get (fst (io_disconnect now st s)) x)"
  proof (cases "x = sock_id s")
    case True
    have "find (\<lambda>t. sock_id t = sock_id s) (filter (\<lambda>t. sock_id t \<noteq> sock_id s) (sockets st)) = None"
      by (rule find_filter_excluded) simp
    with True show ?thesis by (simp add: sockets_get_def)
  next
    case False
    have "find (\<lambda>t. sock_id t = x) (filter (\<lambda>t. sock_id t \<noteq> sock_id s) (sockets st)) =
        find (\<lambda>t. sock_id t = x) (sockets st)"
      using False by (intro find_filter_implied) auto
    with False ix show ?thesis by (simp add: sockets_get_def)
  qed
qed

subsection \<open>Rooms hold live sockets under their own hotel id\<close>

lemma rooms_scoped_connect:
  assumes r: "rooms_scoped st"
  shows "rooms_scoped (fst (io_connection now st s))"
  unfolding rooms_scoped_def
proof (intro allI impI)
  fix r x
  let ?st' = "fst (io_connection now st s)"
  assume x: "x \<in> set (rooms ?st' r)"
  have old: "x \<in> set (rooms st r) \<Longrightarrow>
      \<exists>t \<in> set (sockets ?st'). sock_id t = x \<and>
        ((hotel_key (sock_hotelId t) \<noteq> None \<and> r = hotel_room (sock_hotelId t))
         \<or> (\<exists>n \<in> set allowedRooms. r = hotel_sub_room (sock_hotelId t) n))"
    using r unfolding rooms_scoped_def by fastforce
  show "\<exists>t \<in> set (sockets ?st'). sock_id t = x \<and>
        ((hotel_key (sock_hotelId t) \<noteq> None \<and> r = hotel_room (sock_hotelId t))
         \<or> (\<exists>n \<in> set allowedRooms. r = hotel_sub_room (sock_hotelId t) n))"
  proof (cases "x \<in> set (rooms st r)")
    case True
    then show ?thesis by (rule old)
  next
    case False
    with x have "hotel_key (sock_hotelId s) \<noteq> None \<and> r = hotel_room (sock_hotelId s) \<and> x = sock_id s"
      by (auto simp: rooms_io_connection set_add_def split: option.splits if_splits)
    then show ?thesis by auto
  qed
qed

lemma rooms_scoped_join:
  assumes r: "rooms_scoped st" and live: "s \<in> set (sockets st)"
  shows "rooms_scoped (fst (join_room st s n))"
  unfolding rooms_scoped_def
proof (intro allI impI)
  fix r x
  let ?st' = "fst (join_room st s n)"
  assume x: "x \<in> set (rooms ?st' r)"
  have old: "x \<in> set (rooms st r) \<Longrightarrow>
      \<exists>t \<in> set (sockets ?st'). sock_id t = x \<and>
        ((hotel_key (sock_hotelId t) \<noteq> None \<and> r = hotel_room (sock_hotelId t))
         \<or> (\<exists>n \<in> set allowedRooms. r = hotel_sub_room (sock_hotelId t) n))"
    using r unfolding rooms_scoped_def by fastforce
  show "\<exists>t \<in> set (sockets ?st'). sock_id t = x \<and>
        ((hotel_key (sock_hotelId t) \<noteq> None \<and> r = hotel_room (sock_hotelId t))
         \<or> (\<exists>n \<in> set allowedRooms. r = hotel_sub_room (sock_hotelId t) n))"
  proof (cases "x \<in> set (rooms st r)")
    case True
    then show ?thesis by (rule old)
  next
    case False
    with x have "n \<in> set allowedRooms \<and> r = hotel_sub_room (sock_hotelId s) n \<and> x = sock_id s"
      by (auto simp: rooms_join_room set_add_def split: if_splits)
    with live show ?thesis by auto
  qed
qed

lemma rooms_scoped_close:
  assumes r: "rooms_scoped st"
  shows "rooms_scoped (fst (io_disconnect now st s))"
  unfolding rooms_scoped_def
proof (intro allI impI)
  fix r x
  let ?st' = "fst (io_disconnect now st s)"
  assume "x \<in> set (rooms ?st' r)"
  then have x: "x \<noteq> sock_id s" "x \<in> set (rooms st r)" by simp_all
  from r x(2) obtain t where t: "t \<in> set (sockets st)" "sock_id t = x"
      "(hotel_key (sock_hotelId t) \<noteq> None \<and> r = hotel_room (sock_hotelId t))
         \<or> (\<exists>n \<in> set allowedRooms. r = hotel_sub_room (sock_hotelId t) n)"
    unfolding rooms_scoped_def by blast
  from t(1,2) x(1) have "t \<in> set (sockets ?st')" by simp
  with t(2,3) show "\<exists>t \<in> set (sockets ?st'). sock_id t = x \<and>
        ((hotel_key (sock_hotelId t) \<noteq> None \<and> r = hotel_room (sock_hotelId t))
         \<or> (\<exists>n \<in> set allowedRooms. r = hotel_sub_room (sock_hotelId t) n))"
    by blast
qed

subsection \<open>All four hold in every reachable state\<close>

lemma reachable_invariants:
  "reachable st \<Longrightarrow> ids_distinct st \<and> presence_exact st \<and> index_exact st \<and> rooms_scoped st"
proof (induction rule: reachable.induct)
  case start
  show ?case
    by (simp add: init_server_def ids_distinct_def presence_exact_def index_exact_def
        rooms_scoped_def tenant_sockets_def sockets_get_def)
next
  case (connect st jwt_verify findUnique sid hs s now)
  from connect.hyps(2) have "sock_id s = sid" by (rule middleware_sock_id)
  with connect.hyps(3) have fresh: "sock_id s \<notin> sock_id ` set (sockets st)" by simp
  with connect.IH show ?case
    by (simp add: ids_distinct_connect presence_exact_connect index_exact_connect
        rooms_scoped_connect)
next
  case (join st s roomName)
  then show ?case
    by (simp add: ids_distinct_join presence_exact_join index_exact_join rooms_scoped_join)
next
  case (close st s now)
  then show ?case
    by (simp add: ids_distinct_close presence_exact_close index_exact_close rooms_scoped_close)
qed


section \<open>The concrete states are reachable\<close>

lemmas ex_users = ex_alice_def ex_bob_def ex_carol_def ex_admin_def ex_dave_def ex_erin_def
  ex_hotel1_def ex_hotel2_def ex_hotel3_def

lemmas ex_auth = middleware_def extract_token_def subscription_inactive_def ex_hs_def
  ex_verify_def ex_findUnique_def

lemma ex_sockets_st1: "sockets ex_st1 = [ex_sockA]"
  by (simp add: ex_st1_def init_server_def)

lemma ex_sockets_st2: "sockets ex_st2 = [ex_sockA, ex_sockB]"
  by (simp add: ex_st2_def ex_sockets_st1)

lemma ex_sockets_st3: "sockets ex_st3 = [ex_sockA, ex_sockB, ex_sockC]"
  by (simp add: ex_st3_def ex_sockets_st2)

lemma ex_sockets_dup: "sockets ex_dup = [ex_sockA, ex_sockA2]"
  by (simp add: ex_dup_def ex_sockets_st1)

lemma ex_sockets_adm: "sockets ex_adm = [ex_sockA, ex_sockP]"
  by (simp add: ex_adm_def ex_sockets_st1)

lemma ex_sock_ids [simp]:
  "sock_id ex_sockA = ''sA''" "sock_id ex_sockA2 = ''sA2''" "sock_id ex_sockB = ''sB''"
  "sock_id ex_sockC = ''sC''" "sock_id ex_sockP = ''sP''"
  by (simp_all add: ex_sockA_def ex_sockA2_def ex_sockB_def ex_sockC_def ex_sockP_def
      attach_user_def)

lemma ex_sock_hotels [simp]:
  "sock_hotelId ex_sockA = Some 1" "sock_hotelId ex_sockA2 = Some 1"
  "sock_hotelId ex_sockB = Some 2" "sock_hotelId ex_sockC = Some 1"
  "sock_hotelId ex_sockP = None"
  by (simp_all add: ex_sockA_def ex_sockA2_def ex_sockB_def ex_sockC_def ex_sockP_def
      attach_user_def ex_users)

lemma ex_sock_roles [simp]:
  "sock_userRole ex_sockA = ''hotel_manager''" "sock_userRole ex_sockA2 = ''hotel_manager''"
  "sock_userRole ex_sockB = ''hotel_manager''" "sock_userRole ex_sockC = ''front_desk''"
  "sock_userRole ex_sockP = ''platform_admin''"
  by (simp_all add: ex_sockA_def ex_sockA2_def ex_sockB_def ex_sockC_def ex_sockP_def
      attach_user_def ex_users)

lemma ex_reachable_st1: "reachable ex_st1"
  unfolding ex_st1_def
proof (rule reachable.connect [OF reachable.start])
  show "middleware ex_verify ex_findUnique ''sA'' (ex_hs ''alice'') = Inr ex_sockA"
    by (simp add: ex_auth ex_users ex_sockA_def)
  show "''sA'' \<notin> sock_id ` set (sockets init_server)"
    by (simp add: init_server_def)
qed

lemma ex_reachable_st2: "reachable ex_st2"
  unfolding ex_st2_def
proof (rule reachable.connect [OF ex_reachable_st1])
  show "middleware ex_verify ex_findUnique ''sB'' (ex_hs ''bob'') = Inr ex_sockB"
    by (simp add: ex_auth ex_users ex_sockB_def)
  show "''sB'' \<notin> sock_id ` set (sockets ex_st1)"
    by (simp add: ex_sockets_st1)
qed

lemma ex_reachable_st3: "reachable ex_st3"
  unfolding ex_st3_def
proof (rule reachable.connect [OF ex_reachable_st2])
  show "middleware ex_verify ex_findUnique ''sC'' (ex_hs ''carol'') = Inr ex_sockC"
    by (simp add: ex_auth ex_users ex_sockC_def)
  show "''sC'' \<notin> sock_id ` set (sockets ex_st2)"
    by (simp add: ex_sockets_st2)
qed

lemma ex_reachable_dup: "reachable ex_dup"
  unfolding ex_dup_def
proof (rule reachable.connect [OF ex_reachable_st1])
  show "middleware ex_verify ex_findUnique ''sA2'' (ex_hs ''alice'') = Inr ex_sockA2"
    by (simp add: ex_auth ex_users ex_sockA2_def)
  show "''sA2'' \<notin> sock_id ` set (sockets ex_st1)"
    by (simp add: ex_sockets_st1)
qed

lemma ex_reachable_adm: "reachable ex_adm"
  unfolding ex_adm_def
proof (rule reachable.connect [OF ex_reachable_st1])
  show "middleware ex_verify ex_findUnique ''sP'' (ex_hs ''admin'') = Inr ex_sockP"
    by (simp add: ex_auth ex_users ex_sockP_def)
  show "''sP'' \<notin> sock_id ` set (sockets ex_st1)"
    by (simp add: ex_sockets_st1)
qed

section \<open>The handshake\<close>

text \<open>
  Claim C6, amended. The middleware refuses a handshake exactly in these cases, each with
  its own message: no token, or an empty one (\<open>Authentication required\<close>); a token
  that \<open>jwt.verify\<close> rejects, or a user lookup that throws
  (\<open>Authentication failed\<close>); no such user, or an inactive one
  (\<open>Invalid user\<close>); an active user whose hotel has a subscription status other
  than \<open>active\<close> and \<open>trial\<close> (\<open>Hotel subscription inactive\<close>). In
  every other case the socket is admitted with all five fields of the user attached, and
  no other message occurs. The claim as stated leaves out the lookup that throws.
\<close>
theorem middleware_refusal:
  "(middleware jwt_verify findUnique sid hs = Inl ''Authentication required''
      \<longleftrightarrow> extract_token hs = None \<or> extract_token hs = Some [])
   \<and> (middleware jwt_verify findUnique sid hs = Inl ''Authentication failed''
      \<longleftrightarrow> (\<exists>t. extract_token hs = Some t \<and> t \<noteq> [] \<and>
             (jwt_verify t = None \<or>
              (\<exists>d. jwt_verify t = Some d \<and> findUnique (userId d) = DbThrows))))
   \<and> (middleware jwt_verify findUnique sid hs = Inl ''Invalid user''
      \<longleftrightarrow> (\<exists>t d. extract_token hs = Some t \<and> t \<noteq> [] \<and> jwt_verify t = Some d \<and>
             (findUnique (userId d) = DbRow None \<or>
              (\<exists>u. findUnique (userId d) = DbRow (Some u) \<and> \<not> isActive u))))
   \<and> (middleware jwt_verify findUnique sid hs = Inl ''Hotel subscription inactive''
      \<longleftrightarrow> (\<exists>t d u h. extract_token hs = Some t \<and> t \<noteq> [] \<and> jwt_verify t = Some d \<and>
             findUnique (userId d) = DbRow (Some u) \<and> isActive u \<and> user_hotel u = Some h \<and>
             subscriptionStatus h \<noteq> ''active'' \<and> subscriptionStatus h \<noteq> ''trial''))
   \<and> (\<forall>s. middleware jwt_verify findUnique sid hs = Inr s
      \<longleftrightarrow> (\<exists>t d u. extract_token hs = Some t \<and> t \<noteq> [] \<and> jwt_verify t = Some d \<and>
             findUnique (userId d) = DbRow (Some u) \<and> isActive u \<and>
             (\<forall>h. user_hotel u = Some h \<longrightarrow>
                subscriptionStatus h = ''active'' \<or> subscriptionStatus h = ''trial'') \<and>
             s = \<lparr>sock_id = sid, sock_userId = user_id u, sock_userRole = user_role u,
                  sock_hotelId = user_hotelId u, sock_userName = user_name u,
                  sock_userEmail = user_email u\<rparr>))
   \<and> (\<forall>msg. middleware jwt_verify findUnique sid hs = Inl msg \<longrightarrow>
         msg \<in> {''Authentication required'', ''Authentication failed'', ''Invalid user'',
                ''Hotel subscription inactive''})"
  by (auto simp: middleware_def attach_user_def subscription_inactive_def
      split: option.splits db_result.splits if_splits)

theorem middleware_refusal_witness:
  "middleware ex_verify ex_findUnique ''sA'' (ex_hs ''alice'') = Inr ex_sockA
   \<and> middleware ex_verify ex_findUnique ''sP'' (ex_hs ''admin'') = Inr ex_sockP
   \<and> middleware ex_verify ex_findUnique ''sX'' \<lparr>auth_token = None, query_token = None\<rparr>
       = Inl ''Authentication required''
   \<and> middleware ex_verify ex_findUnique ''sX'' (ex_hs ''expired'') = Inl ''Authentication failed''
   \<and> middleware ex_verify ex_findUnique ''sX'' (ex_hs ''gone'') = Inl ''Invalid user''
   \<and> middleware ex_verify ex_findUnique ''sX'' (ex_hs ''dave'') = Inl ''Invalid user''
   \<and> middleware ex_verify ex_findUnique ''sX'' (ex_hs ''erin'') = Inl ''Hotel subscription inactive''"
  using middleware_refusal [of ex_verify ex_findUnique "''sA''" "ex_hs ''alice''"]
    middleware_refusal [of ex_verify ex_findUnique "''sX''" "ex_hs ''erin''"]
  by (simp add: ex_auth ex_users ex_sockA_def ex_sockP_def attach_user_def)

theorem middleware_refuses_on_lookup_failure:
  "middleware ex_verify ex_findUnique ''sX'' (ex_hs ''outage'') = Inl ''Authentication failed''
   \<and> extract_token (ex_hs ''outage'') = Some ''outage''
   \<and> ex_verify ''outage'' = Some \<lparr>userId = 99\<rparr>
   \<and> ex_findUnique 99 = DbThrows"
  by (simp add: ex_auth)

text \<open>
  Claim C7. A handshake the middleware refuses leaves the state as it was: the two
  presence maps, and with them the count and the list of every hotel, are unchanged, and
  the \<open>connection\<close> handler does not run.
\<close>
theorem refused_handshake_changes_nothing:
  assumes "middleware jwt_verify findUnique sid hs = Inl msg"
  shows "io_handshake jwt_verify findUnique now st sid hs = (st, Inl msg)
     \<and> connectedUsers (fst (io_handshake jwt_verify findUnique now st sid hs)) = connectedUsers st
     \<and> socketToUser (fst (io_handshake jwt_verify findUnique now st sid hs)) = socketToUser st
     \<and> (\<forall>T. getConnectedUsersCount (fst (io_handshake jwt_verify findUnique now st sid hs)) T
              = getConnectedUsersCount st T
          \<and> getConnectedUsers (fst (io_handshake jwt_verify findUnique now st sid hs)) T
              = getConnectedUsers st T)"
  using assms by (simp add: io_handshake_def)

theorem refused_handshake_changes_nothing_witness:
  "middleware ex_verify ex_findUnique ''sX'' (ex_hs ''expired'') = Inl ''Authentication failed''
   \<and> io_handshake ex_verify ex_findUnique ex_now ex_st1 ''sX'' (ex_hs ''expired'')
       = (ex_st1, Inl ''Authentication failed'')
   \<and> getConnectedUsersCount
        (fst (io_handshake ex_verify ex_findUnique ex_now ex_st1 ''sX'' (ex_hs ''expired''))) 1
       = getConnectedUsersCount ex_st1 1"
proof -
  have r: "middleware ex_verify ex_findUnique ''sX'' (ex_hs ''expired'') = Inl ''Authentication failed''"
    by (simp add: ex_auth)
  from r refused_handshake_changes_nothing [OF r, of ex_now ex_st1] show ?thesis by simp
qed

section \<open>Joining a room\<close>

lemma memberships_socket_join:
  "memberships (socket_join sid room st) x =
     (if x = sid then insert room (memberships st x) else memberships st x)"
  by (auto simp: memberships_def socket_join_def set_add_def)

lemma memberships_join_room:
  "memberships (fst (join_room st s n)) x =
     (if n \<in> set allowedRooms \<and> x = sock_id s
      then insert (hotel_sub_room (sock_hotelId s) n) (memberships st x)
      else memberships st x)"
  by (simp add: join_room_def memberships_socket_join)

lemma out_join_room:
  "snd (join_room st s n) =
     (if n \<in> set allowedRooms then [(sock_id s, ''room_joined'', [(''room'', JStr n)])] else [])"
  by (simp add: join_room_def socket_emit_def)

lemma join_room_ignored: "n \<notin> set allowedRooms \<Longrightarrow> join_room st s n = (st, [])"
  by (simp add: join_room_def)

lemma allowedRooms_set:
  "set allowedRooms = {''manager_dashboard'', ''front_desk'', ''housekeeping'', ''room_updates''}"
  by (simp add: allowedRooms_def)

text \<open>
  Claim C8. A \<open>join_room\<close> request with a name outside the four allowed names
  changes nothing and emits nothing. A request with an allowed name adds the room named
  after the socket's hotel id and the requested name to the rooms of that socket, and of
  no other socket, emits \<open>room_joined\<close> with the name to that socket, and leaves
  the presence maps as they were.
\<close>
theorem join_room_allow_list:
  "(roomName \<notin> {''manager_dashboard'', ''front_desk'', ''housekeeping'', ''room_updates''} \<longrightarrow>
      join_room st s roomName = (st, [])
      \<and> memberships (fst (join_room st s roomName)) (sock_id s) = memberships st (sock_id s))
   \<and> (roomName \<in> {''manager_dashboard'', ''front_desk'', ''housekeeping'', ''room_updates''} \<longrightarrow>
      memberships (fst (join_room st s roomName)) (sock_id s)
        = insert (hotel_sub_room (sock_hotelId s) roomName) (memberships st (sock_id s))
      \<and> snd (join_room st s roomName) = [(sock_id s, ''room_joined'', [(''room'', JStr roomName)])]
      \<and> (\<forall>x. x \<noteq> sock_id s \<longrightarrow>
            memberships (fst (join_room st s roomName)) x = memberships st x)
      \<and> connectedUsers (fst (join_room st s roomName)) = connectedUsers st
      \<and> socketToUser (fst (join_room st s roomName)) = socketToUser st
      \<and> sockets (fst (join_room st s roomName)) = sockets st)"
  unfolding allowedRooms_set [symmetric]
  by (simp add: memberships_join_room out_join_room join_room_ignored)

theorem join_room_allow_list_witness:
  "join_room ex_st3 ex_sockC ''penthouse'' = (ex_st3, [])
   \<and> snd (join_room ex_st3 ex_sockC ''housekeeping'')
       = [(''sC'', ''room_joined'', [(''room'', JStr ''housekeeping'')])]
   \<and> memberships (fst (join_room ex_st3 ex_sockC ''housekeeping'')) ''sC''
       = insert (hotel_sub_room (Some 1) ''housekeeping'') (memberships ex_st3 ''sC'')"
  using join_room_allow_list [of "''penthouse''" ex_st3 ex_sockC]
    join_room_allow_list [of "''housekeeping''" ex_st3 ex_sockC]
  by simp

section \<open>The timestamp of a broadcast\<close>

lemma get_set_field:
  "get_field (set_field k v obj) k' = (if k' = k then Some v else get_field obj k')"
  by (induction obj) (auto simp: get_field_def)

lemma role_loop_payloads:
  "map snd (role_loop st role event data clock k xs) =
     map (\<lambda>j. (event, set_field ''timestamp'' (JStr (clock j)) data))
       [k..<k + length (role_loop st role event data clock k xs)]"
proof (induction xs arbitrary: k)
  case Nil
  show ?case by simp
next
  case (Cons x xs)
  show ?case
  proof (cases "sockets_get st x")
    case None
    with Cons.IH [of k] show ?thesis by simp
  next
    case (Some s)
    show ?thesis
    proof (cases "sock_userRole s = role")
      case True
      let ?rest = "role_loop st role event data clock (Suc k) xs"
      have step: "role_loop st role event data clock k (x # xs) =
          (sock_id s, event, set_field ''timestamp'' (JStr (clock k)) data) # ?rest"
        using Some True by (simp add: socket_emit_def)
      have "[k..<k + length ((sock_id s, event, set_field ''timestamp'' (JStr (clock k)) data) # ?rest)]
          = k # [Suc k..<Suc k + length ?rest]"
        by (simp add: upt_conv_Cons del: upt_Suc)
      with Cons.IH [of "Suc k"] show ?thesis
        unfolding step by (simp del: upt_Suc)
    next
      case False
      with Some Cons.IH [of k] show ?thesis by simp
    qed
  qed
qed

lemma ex_show_1: "show_int 1 = ''1''"
  by (simp add: show_int_def show_nat.simps digit_char_def)

lemma ex_show_2: "show_int 2 = ''2''"
  by (simp add: show_int_def show_nat.simps digit_char_def)

lemma ex_hotel_rooms:
  "hotel_room (Some 1) = ''hotel_1''" "hotel_room (Some 2) = ''hotel_2''"
  "hotel_sub_room (Some 1) n = ''hotel_1_'' @ n" "hotel_sub_room (Some 2) n = ''hotel_2_'' @ n"
  by (simp_all add: hotel_room_def hotel_sub_room_def template_id_def ex_show_1 ex_show_2)

lemma ex_rooms_st3: "rooms ex_st3 ''hotel_1'' = [''sA'', ''sC'']"
  by (simp add: ex_st3_def ex_st2_def ex_st1_def rooms_io_connection hotel_key_def
      ex_hotel_rooms set_add_def init_server_def)

text \<open>
  Claim C4. Each payload that \<open>broadcastToHotel\<close>, \<open>broadcastToRole\<close> or
  \<open>broadcastToRoom\<close> delivers is the caller's object with the field
  \<open>timestamp\<close> set to the clock reading taken at the emit
  (\<open>new Date().toISOString()\<close>, the ISO-8601 rendering of the runtime);
  \<open>broadcastToRole\<close> takes one reading for each emit. The reading replaces a
  \<open>timestamp\<close> the caller supplied, and every other field is the caller's.
\<close>
theorem broadcasts_stamp_timestamp:
  "(\<forall>d \<in> set (broadcastToHotel now st hotelId event data).
       snd d = (event, set_field ''timestamp'' (JStr now) data))
   \<and> (\<forall>d \<in> set (broadcastToRoom now st hotelId roomName event data).
       snd d = (event, set_field ''timestamp'' (JStr now) data))
   \<and> map snd (broadcastToRole clock st hotelId role event data) =
       map (\<lambda>k. (event, set_field ''timestamp'' (JStr (clock k)) data))
         [0..<length (broadcastToRole clock st hotelId role event data)]
   \<and> get_field (set_field ''timestamp'' (JStr t) data) ''timestamp'' = Some (JStr t)
   \<and> (k \<noteq> ''timestamp'' \<longrightarrow>
         get_field (set_field ''timestamp'' (JStr t) data) k = get_field data k)"
proof -
  have role: "map snd (broadcastToRole clock st hotelId role event data) =
       map (\<lambda>k. (event, set_field ''timestamp'' (JStr (clock k)) data))
         [0..<length (broadcastToRole clock st hotelId role event data)]"
  proof (cases "connectedUsers st hotelId")
    case None
    then show ?thesis by (simp add: broadcastToRole_def)
  next
    case (Some xs)
    with role_loop_payloads [of st role event data clock 0 xs] show ?thesis
      by (simp add: broadcastToRole_def)
  qed
  have hotel: "\<forall>d \<in> set (broadcastToHotel now st hotelId event data).
       snd d = (event, set_field ''timestamp'' (JStr now) data)"
    by (auto simp: broadcastToHotel_def io_to_emit_def)
  have room: "\<forall>d \<in> set (broadcastToRoom now st hotelId roomName event data).
       snd d = (event, set_field ''timestamp'' (JStr now) data)"
    by (auto simp: broadcastToRoom_def io_to_emit_def)
  from hotel room role show ?thesis by (simp add: get_set_field)
qed

lemma ex_broadcast_st3:
  "broadcastToHotel ex_now ex_st3 1 ''task_completed'' ex_data =
     [(''sA'', ''task_completed'', [(''taskId'', JNum 5), (''timestamp'', JStr ex_now)]),
      (''sC'', ''task_completed'', [(''taskId'', JNum 5), (''timestamp'', JStr ex_now)])]"
  by (simp add: broadcastToHotel_def io_to_emit_def ex_hotel_rooms ex_rooms_st3 ex_data_def)

theorem broadcasts_stamp_timestamp_witness:
  "broadcastToHotel ex_now ex_st3 1 ''task_completed'' ex_data =
     [(''sA'', ''task_completed'', [(''taskId'', JNum 5), (''timestamp'', JStr ex_now)]),
      (''sC'', ''task_completed'', [(''taskId'', JNum 5), (''timestamp'', JStr ex_now)])]
   \<and> get_field ex_data ''timestamp'' = Some (JStr ''1999-12-31T23:59:59.000Z'')
   \<and> get_field (set_field ''timestamp'' (JStr ex_now) ex_data) ''timestamp'' = Some (JStr ex_now)
   \<and> get_field (set_field ''timestamp'' (JStr ex_now) ex_data) ''taskId'' = Some (JNum 5)"
  using broadcasts_stamp_timestamp
    [of ex_now ex_st3 1 "''task_completed''" ex_data "''housekeeping''" ex_clock
       "''hotel_manager''" ex_now "''taskId''"]
  by (simp add: ex_broadcast_st3) (simp add: get_field_def ex_data_def)

section \<open>A second disconnect\<close>

lemma disconnect_unregistered:
  assumes r: "reachable st" and gone: "sock_id s \<notin> sock_id ` set (sockets st)"
  shows "fst (disconnect now st s) = st"
proof (rule server.equality)
  from r have p: "presence_exact st" and i: "index_exact st"
    using reachable_invariants by blast+
  show "connectedUsers (fst (disconnect now st s)) = connectedUsers st"
  proof (cases "hotel_key (sock_hotelId s)")
    case None
    then show ?thesis by (simp add: connectedUsers_disconnect)
  next
    case (Some h)
    show ?thesis
    proof (cases "connectedUsers st h")
      case None
      with Some show ?thesis by (simp add: connectedUsers_disconnect)
    next
      case cu: (Some xs)
      with p have xs: "xs = map sock_id (tenant_sockets st h)" "tenant_sockets st h \<noteq> []"
        by (auto simp: presence_exact_def split: if_splits)
      from gone xs(1) have "sock_id s \<notin> set xs" by (auto simp: tenant_sockets_def)
      then have "removeAll (sock_id s) xs = xs" by simp
      moreover from xs have "xs \<noteq> []" by simp
      ultimately show ?thesis
        using Some cu by (simp add: connectedUsers_disconnect fun_upd_idem)
    qed
  qed
  from gone have "sockets_get st (sock_id s) = None"
    unfolding sockets_get_def by (rule find_None_fresh)
  with i have "socketToUser st (sock_id s) = None" by (simp add: index_exact_def)
  then show "socketToUser (fst (disconnect now st s)) = socketToUser st"
    by (simp add: fun_upd_idem)
qed simp_all

text \<open>
  Claim C5. The \<open>disconnect\<close> handler run a second time for the same socket, right
  after the first run, returns the state the first run left: the handler has no failing
  branch, and \<open>getConnectedUsersCount\<close> and \<open>getConnectedUsers\<close> are the same
  for every hotel. The same holds with the clean-up Socket.IO does before the handler.
  More generally, in a reachable state the handler run for a socket id that is not
  connected leaves the state as it is.
\<close>
theorem disconnect_idempotent:
  "fst (disconnect now' (fst (disconnect now st s)) s) = fst (disconnect now st s)
   \<and> fst (io_disconnect now' (fst (io_disconnect now st s)) s) = fst (io_disconnect now st s)
   \<and> getConnectedUsersCount (fst (disconnect now' (fst (disconnect now st s)) s)) T
       = getConnectedUsersCount (fst (disconnect now st s)) T
   \<and> getConnectedUsers (fst (disconnect now' (fst (disconnect now st s)) s)) T
       = getConnectedUsers (fst (disconnect now st s)) T
   \<and> (reachable st \<and> sock_id s \<notin> sock_id ` set (sockets st) \<longrightarrow>
         fst (disconnect now st s) = st)"
proof -
  have handler: "fst (disconnect now' (fst (disconnect now st s)) s) = fst (disconnect now st s)"
  proof (rule server.equality)
    show "connectedUsers (fst (disconnect now' (fst (disconnect now st s)) s)) =
        connectedUsers (fst (disconnect now st s))"
      by (auto simp: connectedUsers_disconnect split: option.splits)
  qed simp_all
  have closing: "fst (io_disconnect now' (fst (io_disconnect now st s)) s) =
      fst (io_disconnect now st s)"
  proof (rule server.equality)
    show "connectedUsers (fst (io_disconnect now' (fst (io_disconnect now st s)) s)) =
        connectedUsers (fst (io_disconnect now st s))"
      by (auto simp: connectedUsers_io_disconnect split: option.splits)
  qed simp_all
  from handler closing show ?thesis by (simp add: disconnect_unregistered)
qed

theorem disconnect_idempotent_witness:
  "reachable ex_st1 \<and> sock_id ex_sockB \<notin> sock_id ` set (sockets ex_st1)
   \<and> fst (disconnect ex_now ex_st1 ex_sockB) = ex_st1
   \<and> fst (io_disconnect ex_now (fst (io_disconnect ex_now ex_st3 ex_sockA)) ex_sockA)
       = fst (io_disconnect ex_now ex_st3 ex_sockA)
   \<and> getConnectedUsersCount (fst (io_disconnect ex_now ex_st3 ex_sockA)) 1 = 1
   \<and> getConnectedUsersCount
        (fst (io_disconnect ex_now (fst (io_disconnect ex_now ex_st3 ex_sockA)) ex_sockA)) 1 = 1"
proof -
  have one: "getConnectedUsersCount (fst (io_disconnect ex_now ex_st3 ex_sockA)) 1 = 1"
    by (simp add: getConnectedUsersCount_def connectedUsers_io_disconnect hotel_key_def
        ex_st3_def ex_st2_def ex_st1_def connectedUsers_io_connection set_add_def
        init_server_def)
  have gone: "sock_id ex_sockB \<notin> sock_id ` set (sockets ex_st1)"
    by (simp add: ex_sockets_st1)
  from disconnect_idempotent [of ex_now ex_now ex_st3 ex_sockA 1]
  have twice: "fst (io_disconnect ex_now (fst (io_disconnect ex_now ex_st3 ex_sockA)) ex_sockA)
       = fst (io_disconnect ex_now ex_st3 ex_sockA)"
    by (rule conjunct1 [OF conjunct2])
  from disconnect_idempotent [of ex_now ex_now ex_st1 ex_sockB 1] ex_reachable_st1 gone
  have noop: "fst (disconnect ex_now ex_st1 ex_sockB) = ex_st1" by blast
  from one twice noop ex_reachable_st1 gone show ?thesis by simp
qed

lemma ex_sockets_st5: "sockets ex_st5 = [ex_sockA, ex_sockB, ex_sockC]"
  by (simp add: ex_st5_def ex_st4_def ex_sockets_st3)

lemma ex_reachable_st5: "reachable ex_st5"
proof -
  have "reachable ex_st4"
    unfolding ex_st4_def by (rule reachable.join [OF ex_reachable_st3]) (simp add: ex_sockets_st3)
  then show ?thesis
    unfolding ex_st5_def by (rule reachable.join) (simp add: ex_st4_def ex_sockets_st3)
qed

section \<open>Who receives a broadcast\<close>

lemma role_loop_ids:
  "map fst (role_loop st role event data clock k xs) =
     filter (\<lambda>x. case sockets_get st x of None \<Rightarrow> False | Some s \<Rightarrow> sock_userRole s = role) xs"
proof (induction xs arbitrary: k)
  case Nil
  show ?case by simp
next
  case (Cons x xs)
  show ?case
  proof (cases "sockets_get st x")
    case None
    with Cons.IH [of k] show ?thesis by simp
  next
    case (Some s)
    from sockets_get_sock_id [OF Some] have "sock_id s = x" by simp
    with Some Cons.IH [of k] Cons.IH [of "Suc k"] show ?thesis
      by (simp add: socket_emit_def)
  qed
qed

lemma role_filter_live:
  assumes d: "ids_distinct st" and sub: "set ss \<subseteq> set (sockets st)"
  shows "filter (\<lambda>x. case sockets_get st x of None \<Rightarrow> False | Some s \<Rightarrow> sock_userRole s = role)
           (map sock_id ss) = map sock_id (filter (\<lambda>s. sock_userRole s = role) ss)"
proof -
  have "\<And>s. s \<in> set ss \<Longrightarrow> sockets_get st (sock_id s) = Some s"
    using d sub by (auto intro: sockets_get_live)
  then have "filter ((\<lambda>x. case sockets_get st x of None \<Rightarrow> False | Some s \<Rightarrow> sock_userRole s = role)
               \<circ> sock_id) ss = filter (\<lambda>s. sock_userRole s = role) ss"
    by (intro filter_cong) auto
  then show ?thesis by (simp add: filter_map)
qed

lemma tenant_sockets_live: "set (tenant_sockets st T) \<subseteq> set (sockets st)"
  by (auto simp: tenant_sockets_def)

lemma reachable_presence:
  "reachable st \<Longrightarrow> connectedUsers st T =
     (if T = 0 \<or> tenant_sockets st T = [] then None else Some (map sock_id (tenant_sockets st T)))"
  using reachable_invariants [of st] by (simp add: presence_exact_def)

lemma broadcastToRole_ids:
  assumes r: "reachable st" and T: "T \<noteq> 0"
  shows "map fst (broadcastToRole clock st T R event data) =
           map sock_id (filter (\<lambda>s. sock_userRole s = R) (tenant_sockets st T))"
proof (cases "tenant_sockets st T = []")
  case True
  with reachable_presence [OF r, of T] show ?thesis by (simp add: broadcastToRole_def)
next
  case False
  from r have d: "ids_distinct st" using reachable_invariants by blast
  from False T reachable_presence [OF r, of T]
  have "connectedUsers st T = Some (map sock_id (tenant_sockets st T))" by simp
  then show ?thesis
    by (simp add: broadcastToRole_def role_loop_ids role_filter_live [OF d tenant_sockets_live])
qed

lemma broadcastToRole_zero: "reachable st \<Longrightarrow> broadcastToRole clock st 0 R event data = []"
  using reachable_presence [of st 0] by (simp add: broadcastToRole_def)

lemma broadcastToRole_recipients:
  assumes r: "reachable st"
  shows "recipients (broadcastToRole clock st U R event data) \<subseteq>
           sock_id ` {t \<in> set (sockets st). sock_hotelId t = Some U \<and> sock_userRole t = R}"
proof (cases "U = 0")
  case True
  with broadcastToRole_zero [OF r] show ?thesis by (simp add: recipients_def)
next
  case False
  have "recipients (broadcastToRole clock st U R event data) =
      set (map fst (broadcastToRole clock st U R event data))"
    by (simp add: recipients_def)
  also have "\<dots> = set (map sock_id (filter (\<lambda>s. sock_userRole s = R) (tenant_sockets st U)))"
    by (simp only: broadcastToRole_ids [OF r False])
  finally show ?thesis by (auto simp: tenant_sockets_def)
qed

lemma room_members:
  assumes r: "reachable st" and live: "s \<in> set (sockets st)"
    and mem: "sock_id s \<in> set (rooms st room)"
  shows "(hotel_key (sock_hotelId s) \<noteq> None \<and> room = hotel_room (sock_hotelId s))
         \<or> (\<exists>n \<in> set allowedRooms. room = hotel_sub_room (sock_hotelId s) n)"
proof -
  from r have d: "ids_distinct st" and sc: "rooms_scoped st"
    using reachable_invariants by blast+
  from sc mem obtain t where t: "t \<in> set (sockets st)" "sock_id t = sock_id s"
    "(hotel_key (sock_hotelId t) \<noteq> None \<and> room = hotel_room (sock_hotelId t))
       \<or> (\<exists>n \<in> set allowedRooms. room = hotel_sub_room (sock_hotelId t) n)"
    unfolding rooms_scoped_def by blast
  from same_id_same_socket [OF d live t(1,2)] have "t = s" .
  with t(3) show ?thesis by simp
qed

text \<open>
  Claim C1 (isolation of tenants). In every reachable state, a live socket of hotel
  \<open>T\<close> is not among the recipients of \<open>broadcastToHotel\<close>, of
  \<open>broadcastToRole\<close> or of \<open>broadcastToRoom\<close> called for another hotel
  \<open>U\<close>. The name of a room embeds the hotel id: the hotel rooms of two hotels
  differ, and so do their sub-rooms, whatever the two sub-room names are.
\<close>
theorem cross_tenant_isolation:
  assumes r: "reachable st" and live: "s \<in> set (sockets st)"
    and tenant: "sock_hotelId s = Some T" and other: "U \<noteq> T"
  shows "sock_id s \<notin> recipients (broadcastToHotel now st U event data)
     \<and> sock_id s \<notin> recipients (broadcastToRole clock st U role event data)
     \<and> sock_id s \<notin> recipients (broadcastToRoom now st U roomName event data)
     \<and> hotel_room (Some T) \<noteq> hotel_room (Some U)
     \<and> hotel_sub_room (Some T) roomName' \<noteq> hotel_sub_room (Some U) roomName"
proof -
  have names: "hotel_room (Some T) \<noteq> hotel_room (Some U)"
      "\<And>n m. hotel_sub_room (Some T) n \<noteq> hotel_sub_room (Some U) m"
      "\<And>n m. hotel_sub_room (Some U) m \<noteq> hotel_sub_room (Some T) n"
    using other by (auto dest: hotel_room_inj hotel_sub_room_inj)
  have hotel: "sock_id s \<notin> recipients (broadcastToHotel now st U event data)"
  proof
    assume "sock_id s \<in> recipients (broadcastToHotel now st U event data)"
    then have "sock_id s \<in> set (rooms st (hotel_room (Some U)))"
      by (auto simp: recipients_def broadcastToHotel_def io_to_emit_def)
    from room_members [OF r live this] tenant names(1) show False
      by (auto simp: hotel_room_not_sub)
  qed
  have room: "sock_id s \<notin> recipients (broadcastToRoom now st U roomName event data)"
  proof
    assume "sock_id s \<in> recipients (broadcastToRoom now st U roomName event data)"
    then have "sock_id s \<in> set (rooms st (hotel_sub_room (Some U) roomName))"
      by (auto simp: recipients_def broadcastToRoom_def io_to_emit_def)
    from room_members [OF r live this] tenant names(3) show False
      by (auto simp: hotel_room_not_sub [symmetric])
  qed
  have role: "sock_id s \<notin> recipients (broadcastToRole clock st U role event data)"
  proof
    assume "sock_id s \<in> recipients (broadcastToRole clock st U role event data)"
    with broadcastToRole_recipients [OF r, of clock U role event data] obtain t where
      t: "t \<in> set (sockets st)" "sock_hotelId t = Some U" "sock_id t = sock_id s"
      by auto
    from r have "ids_distinct st" using reachable_invariants by blast
    from same_id_same_socket [OF this live t(1,3)] t(2) tenant other show False by simp
  qed
  from hotel role room names(1,2) show ?thesis by simp
qed

lemma ex_rooms_st5: "rooms ex_st5 ''hotel_1_housekeeping'' = [''sC'']"
  "rooms ex_st5 ''hotel_2_housekeeping'' = [''sB'']"
  by (simp_all add: ex_st5_def ex_st4_def ex_st3_def ex_st2_def ex_st1_def rooms_join_room
      rooms_io_connection hotel_key_def ex_hotel_rooms set_add_def init_server_def allowedRooms_def)

theorem cross_tenant_isolation_witness:
  "reachable ex_st5 \<and> ex_sockB \<in> set (sockets ex_st5) \<and> sock_hotelId ex_sockB = Some 2
   \<and> (1::int) \<noteq> 2
   \<and> ''sB'' \<notin> recipients (broadcastToHotel ex_now ex_st5 1 ''task_completed'' ex_data)
   \<and> ''sB'' \<notin> recipients (broadcastToRole ex_clock ex_st5 1 ''hotel_manager'' ''task_completed'' ex_data)
   \<and> ''sB'' \<notin> recipients (broadcastToRoom ex_now ex_st5 1 ''housekeeping'' ''x'' [])
   \<and> recipients (broadcastToRoom ex_now ex_st5 1 ''housekeeping'' ''x'' []) = {''sC''}
   \<and> recipients (broadcastToRoom ex_now ex_st5 2 ''housekeeping'' ''x'' []) = {''sB''}"
proof -
  have live: "ex_sockB \<in> set (sockets ex_st5)" by (simp add: ex_sockets_st5)
  have tenant: "sock_hotelId ex_sockB = Some 2" by simp
  have other: "(1::int) \<noteq> 2" by simp
  from cross_tenant_isolation [OF ex_reachable_st5 live tenant other]
  show ?thesis
    using ex_reachable_st5 live
    by (simp add: recipients_def broadcastToRoom_def io_to_emit_def ex_hotel_rooms ex_rooms_st5)
qed

section \<open>Count and list of a hotel\<close>

lemma map_filter_lookup:
  "(\<And>s. s \<in> set ss \<Longrightarrow> f (g s) = Some (h s)) \<Longrightarrow> List.map_filter f (map g ss) = map h ss"
  by (induction ss) (simp_all add: map_filter_simps)

lemma reachable_index:
  assumes r: "reachable st" and live: "s \<in> set (sockets st)"
  shows "socketToUser st (sock_id s) = Some (user_info_of s)"
proof -
  from r have d: "ids_distinct st" and i: "index_exact st"
    using reachable_invariants by blast+
  from i sockets_get_live [OF d live] show ?thesis by (simp add: index_exact_def)
qed

lemma count_exact:
  assumes r: "reachable st" and T: "T \<noteq> 0"
  shows "getConnectedUsersCount st T = length (tenant_sockets st T)"
  using reachable_presence [OF r, of T] T by (simp add: getConnectedUsersCount_def)

lemma list_exact:
  assumes r: "reachable st" and T: "T \<noteq> 0"
  shows "getConnectedUsers st T = map user_info_of (tenant_sockets st T)"
proof (cases "tenant_sockets st T = []")
  case True
  with reachable_presence [OF r, of T] show ?thesis by (simp add: getConnectedUsers_def)
next
  case False
  with T reachable_presence [OF r, of T]
  have cu: "connectedUsers st T = Some (map sock_id (tenant_sockets st T))" by simp
  have "List.map_filter (socketToUser st) (map sock_id (tenant_sockets st T)) =
      map user_info_of (tenant_sockets st T)"
  proof (rule map_filter_lookup)
    fix s assume "s \<in> set (tenant_sockets st T)"
    then have "s \<in> set (sockets st)" by (simp add: tenant_sockets_def)
    then show "socketToUser st (sock_id s) = Some (user_info_of s)" by (rule reachable_index [OF r])
  qed
  with cu show ?thesis by (simp add: getConnectedUsers_def)
qed

lemma list_zero: "reachable st \<Longrightarrow> getConnectedUsers st 0 = []"
  using reachable_presence [of st 0] by (simp add: getConnectedUsers_def)

lemma tenant_sockets_after_close:
  assumes r: "reachable st" and live: "s \<in> set (sockets st)"
  shows "tenant_sockets (fst (io_disconnect now st s)) T = filter (\<lambda>t. t \<noteq> s) (tenant_sockets st T)"
proof -
  from r have d: "ids_distinct st" using reachable_invariants by blast
  have "filter (\<lambda>t. sock_id t \<noteq> sock_id s) (tenant_sockets st T) =
      filter (\<lambda>t. t \<noteq> s) (tenant_sockets st T)"
  proof (rule filter_cong [OF refl])
    fix t assume "t \<in> set (tenant_sockets st T)"
    then have "t \<in> set (sockets st)" by (simp add: tenant_sockets_def)
    with same_id_same_socket [OF d live this] show "(sock_id t \<noteq> sock_id s) = (t \<noteq> s)" by auto
  qed
  then show ?thesis by (simp add: tenant_sockets_close)
qed

lemma filter_absent: "x \<notin> set xs \<Longrightarrow> filter (\<lambda>t. t \<noteq> x) xs = xs"
  by (induction xs) auto

lemma length_filter_one:
  "distinct xs \<Longrightarrow> x \<in> set xs \<Longrightarrow> length (filter (\<lambda>t. t \<noteq> x) xs) + 1 = length xs"
  by (induction xs) (auto simp: filter_absent)

lemma reachable_sockets_distinct: "reachable st \<Longrightarrow> distinct (sockets st)"
  using reachable_invariants [of st] by (simp add: ids_distinct_def distinct_map)

text \<open>
  Claim C2. In every reachable state and for every hotel \<open>T\<close> (the id of a row of
  \<open>hotels\<close>, a serial that starts at 1, so not 0), \<open>broadcastToRole\<close>
  emits the event once to each live socket of hotel \<open>T\<close> whose role is \<open>R\<close>, in
  the order they connected, and to no other socket: a socket of \<open>T\<close> with another
  role receives nothing, and where no socket matches the call emits nothing.
\<close>
theorem broadcastToRole_exact:
  assumes r: "reachable st" and T: "T \<noteq> 0"
  shows "map fst (broadcastToRole clock st T R event data) =
           map sock_id (filter (\<lambda>s. sock_userRole s = R) (tenant_sockets st T))
     \<and> distinct (map fst (broadcastToRole clock st T R event data))
     \<and> recipients (broadcastToRole clock st T R event data) =
           {sock_id s |s. s \<in> set (sockets st) \<and> sock_hotelId s = Some T \<and> sock_userRole s = R}
     \<and> (\<forall>s \<in> set (sockets st). sock_hotelId s = Some T \<and> sock_userRole s \<noteq> R \<longrightarrow>
           sock_id s \<notin> recipients (broadcastToRole clock st T R event data))
     \<and> (\<forall>d \<in> set (broadcastToRole clock st T R event data). fst (snd d) = event)
     \<and> (filter (\<lambda>s. sock_userRole s = R) (tenant_sockets st T) = [] \<longrightarrow>
           broadcastToRole clock st T R event data = [])"
proof -
  let ?out = "broadcastToRole clock st T R event data"
  let ?match = "filter (\<lambda>s. sock_userRole s = R) (tenant_sockets st T)"
  from r have d: "ids_distinct st" using reachable_invariants by blast
  have ids: "map fst ?out = map sock_id ?match" by (rule broadcastToRole_ids [OF r T])
  have dist: "distinct (map fst ?out)"
    unfolding ids using d
    by (simp add: ids_distinct_def tenant_sockets_def distinct_map_filter)
  have rec: "recipients ?out =
      {sock_id s |s. s \<in> set (sockets st) \<and> sock_hotelId s = Some T \<and> sock_userRole s = R}"
  proof -
    have "recipients ?out = set (map fst ?out)" by (simp add: recipients_def)
    also have "\<dots> = set (map sock_id ?match)" by (simp only: ids)
    finally show ?thesis by (auto simp: tenant_sockets_def)
  qed
  have others: "\<forall>s \<in> set (sockets st). sock_hotelId s = Some T \<and> sock_userRole s \<noteq> R \<longrightarrow>
      sock_id s \<notin> recipients ?out"
  proof (intro ballI impI)
    fix s assume live: "s \<in> set (sockets st)"
      and s: "sock_hotelId s = Some T \<and> sock_userRole s \<noteq> R"
    show "sock_id s \<notin> recipients ?out"
    proof
      assume "sock_id s \<in> recipients ?out"
      with rec obtain t where t: "t \<in> set (sockets st)" "sock_userRole t = R" "sock_id t = sock_id s"
        by auto
      from same_id_same_socket [OF d live t(1,3)] t(2) s show False by simp
    qed
  qed
  have ev: "\<forall>d \<in> set ?out. fst (snd d) = event"
  proof -
    have "map snd ?out = map (\<lambda>k. (event, set_field ''timestamp'' (JStr (clock k)) data)) [0..<length ?out]"
    proof (cases "connectedUsers st T")
      case None
      then show ?thesis by (simp add: broadcastToRole_def)
    next
      case (Some xs)
      with role_loop_payloads [of st R event data clock 0 xs] show ?thesis
        by (simp add: broadcastToRole_def)
    qed
    then have "set (map snd ?out) \<subseteq> {p. fst p = event}" by auto
    then show ?thesis by auto
  qed
  have none: "?match = [] \<longrightarrow> ?out = []"
  proof
    assume "?match = []"
    with ids have "map fst ?out = []" by simp
    then show "?out = []" by simp
  qed
  from ids dist rec others ev none show ?thesis by blast
qed

lemma ex_tenant1_st3: "tenant_sockets ex_st3 1 = [ex_sockA, ex_sockC]"
  by (simp add: tenant_sockets_def ex_sockets_st3)

theorem broadcastToRole_exact_witness:
  "reachable ex_st3 \<and> (1::int) \<noteq> 0
   \<and> map fst (broadcastToRole ex_clock ex_st3 1 ''hotel_manager'' ''task_completed''
               [(''taskId'', JNum 5)]) = [''sA'']
   \<and> ''sB'' \<notin> recipients (broadcastToRole ex_clock ex_st3 1 ''hotel_manager'' ''task_completed''
               [(''taskId'', JNum 5)])
   \<and> ''sC'' \<notin> recipients (broadcastToRole ex_clock ex_st3 1 ''hotel_manager'' ''task_completed''
               [(''taskId'', JNum 5)])
   \<and> broadcastToRole ex_clock ex_st3 1 ''housekeeping'' ''room_needs_cleaning'' [] = []"
proof -
  let ?out = "broadcastToRole ex_clock ex_st3 1 ''hotel_manager'' ''task_completed''
      [(''taskId'', JNum 5)]"
  have T: "(1::int) \<noteq> 0" by simp
  from broadcastToRole_exact [OF ex_reachable_st3 T, of ex_clock "''hotel_manager''"
      "''task_completed''" "[(''taskId'', JNum 5)]"]
  have m: "map fst ?out = [''sA'']" by (simp add: ex_tenant1_st3)
  have "recipients ?out = set (map fst ?out)" by (simp add: recipients_def)
  with m have rec: "recipients ?out = {''sA''}" by simp
  from broadcastToRole_exact [OF ex_reachable_st3 T, of ex_clock "''housekeeping''"
      "''room_needs_cleaning''" "[]"]
  have none: "broadcastToRole ex_clock ex_st3 1 ''housekeeping'' ''room_needs_cleaning'' [] = []"
    by (simp add: ex_tenant1_st3)
  from ex_reachable_st3 m rec none show ?thesis by simp
qed

text \<open>
  Claim C3, amended. In every reachable state and for every hotel \<open>T\<close> (a serial
  id, so not 0), \<open>getConnectedUsersCount\<close> is the number of live sockets of
  \<open>T\<close> and \<open>getConnectedUsers\<close> lists their identities in connection order.
  Right after a socket \<open>s\<close> of \<open>T\<close> closes, the count is one less, the list is
  the identities of the other sockets of \<open>T\<close>, and \<open>socketToUser\<close> has no
  entry for the id of \<open>s\<close>. The list holds no identity equal to that of \<open>s\<close>
  provided no other live socket of \<open>T\<close> carries the same identity: the identity
  object has no socket id in it, and one user may hold two connections.
\<close>
theorem presence_queries_exact:
  assumes r: "reachable st" and T: "T \<noteq> 0"
  shows "getConnectedUsersCount st T = length (tenant_sockets st T)
     \<and> getConnectedUsers st T = map user_info_of (tenant_sockets st T)
     \<and> (\<forall>s \<in> set (sockets st). sock_hotelId s = Some T \<longrightarrow>
          getConnectedUsersCount (fst (io_disconnect now st s)) T + 1 = getConnectedUsersCount st T
          \<and> getConnectedUsers (fst (io_disconnect now st s)) T
              = map user_info_of (filter (\<lambda>t. t \<noteq> s) (tenant_sockets st T))
          \<and> socketToUser (fst (io_disconnect now st s)) (sock_id s) = None
          \<and> ((\<forall>t \<in> set (tenant_sockets st T). t \<noteq> s \<longrightarrow> user_info_of t \<noteq> user_info_of s) \<longrightarrow>
                user_info_of s \<notin> set (getConnectedUsers (fst (io_disconnect now st s)) T)))"
proof (intro conjI ballI impI)
  show "getConnectedUsersCount st T = length (tenant_sockets st T)"
    by (rule count_exact [OF r T])
  show "getConnectedUsers st T = map user_info_of (tenant_sockets st T)"
    by (rule list_exact [OF r T])
next
  fix s assume live: "s \<in> set (sockets st)" and tenant: "sock_hotelId s = Some T"
  let ?st' = "fst (io_disconnect now st s)"
  have r': "reachable ?st'" by (rule reachable.close [OF r live])
  have after: "tenant_sockets ?st' T = filter (\<lambda>t. t \<noteq> s) (tenant_sockets st T)"
    by (rule tenant_sockets_after_close [OF r live])
  have mem: "s \<in> set (tenant_sockets st T)" using live tenant by (simp add: tenant_sockets_def)
  have dist: "distinct (tenant_sockets st T)"
    using reachable_sockets_distinct [OF r] by (simp add: tenant_sockets_def)
  show "getConnectedUsersCount ?st' T + 1 = getConnectedUsersCount st T"
    using length_filter_one [OF dist mem]
    by (simp add: count_exact [OF r T] count_exact [OF r' T] after)
  show list': "getConnectedUsers ?st' T = map user_info_of (filter (\<lambda>t. t \<noteq> s) (tenant_sockets st T))"
    by (simp add: list_exact [OF r' T] after)
  show "socketToUser ?st' (sock_id s) = None" by simp
  assume "\<forall>t \<in> set (tenant_sockets st T). t \<noteq> s \<longrightarrow> user_info_of t \<noteq> user_info_of s"
  then show "user_info_of s \<notin> set (getConnectedUsers ?st' T)"
    unfolding list' by auto
qed

lemma ex_tenant1_dup: "tenant_sockets ex_dup 1 = [ex_sockA, ex_sockA2]"
  by (simp add: tenant_sockets_def ex_sockets_dup)

lemma ex_same_identity: "user_info_of ex_sockA2 = user_info_of ex_sockA"
  by (simp add: user_info_of_def ex_sockA_def ex_sockA2_def attach_user_def)

lemma ex_sockA_neq: "ex_sockC \<noteq> ex_sockA" "ex_sockA \<noteq> ex_sockC"
  by (auto dest: arg_cong [where f = sock_id])

lemma ex_identities_differ:
  "user_info_of ex_sockC \<noteq> user_info_of ex_sockA" "user_info_of ex_sockA \<noteq> user_info_of ex_sockC"
  by (simp_all add: user_info_of_def ex_sockA_def ex_sockC_def attach_user_def ex_users)

theorem presence_queries_exact_witness:
  "reachable ex_st3 \<and> (1::int) \<noteq> 0 \<and> ex_sockA \<in> set (sockets ex_st3)
   \<and> sock_hotelId ex_sockA = Some 1
   \<and> getConnectedUsersCount ex_st3 1 = 2
   \<and> getConnectedUsers ex_st3 1 = [user_info_of ex_sockA, user_info_of ex_sockC]
   \<and> getConnectedUsersCount (fst (io_disconnect ex_now ex_st3 ex_sockA)) 1 = 1
   \<and> getConnectedUsers (fst (io_disconnect ex_now ex_st3 ex_sockA)) 1 = [user_info_of ex_sockC]
   \<and> user_info_of ex_sockA \<notin> set (getConnectedUsers (fst (io_disconnect ex_now ex_st3 ex_sockA)) 1)"
proof -
  have T: "(1::int) \<noteq> 0" by simp
  have live: "ex_sockA \<in> set (sockets ex_st3)" by (simp add: ex_sockets_st3)
  from presence_queries_exact [OF ex_reachable_st3 T, of ex_now] live
  show ?thesis
    using ex_reachable_st3
    by (simp add: ex_tenant1_st3 ex_sockets_st3 ex_sockA_neq ex_identities_differ)
qed

theorem same_user_identity_stays_listed:
  "reachable ex_dup \<and> ex_sockA \<in> set (sockets ex_dup) \<and> sock_hotelId ex_sockA = Some 1
   \<and> getConnectedUsers (fst (io_disconnect ex_now ex_dup ex_sockA)) 1 = [user_info_of ex_sockA]
   \<and> user_info_of ex_sockA \<in> set (getConnectedUsers (fst (io_disconnect ex_now ex_dup ex_sockA)) 1)"
proof -
  have live: "ex_sockA \<in> set (sockets ex_dup)" by (simp add: ex_sockets_dup)
  have r': "reachable (fst (io_disconnect ex_now ex_dup ex_sockA))"
    by (rule reachable.close [OF ex_reachable_dup live])
  have T: "(1::int) \<noteq> 0" by simp
  have "getConnectedUsers (fst (io_disconnect ex_now ex_dup ex_sockA)) 1 = [user_info_of ex_sockA]"
    by (simp add: list_exact [OF r' T] tenant_sockets_close ex_tenant1_dup ex_same_identity)
  with ex_reachable_dup live show ?thesis by simp
qed

section \<open>No empty entry in the presence map\<close>

text \<open>
  Claim C9. In every reachable state \<open>connectedUsers\<close> has no entry with an empty
  set. When the only live socket of hotel \<open>T\<close> closes, the entry of \<open>T\<close> is
  deleted, and \<open>getConnectedUsersCount\<close> is 0 for a hotel without an entry.
\<close>
theorem no_empty_presence_entry:
  assumes r: "reachable st"
  shows "connectedUsers st T \<noteq> Some []
     \<and> (\<forall>s \<in> set (sockets st).
          sock_hotelId s = Some T \<and> (\<forall>t \<in> set (sockets st). sock_hotelId t = Some T \<longrightarrow> t = s)
          \<longrightarrow> connectedUsers (fst (io_disconnect now st s)) T = None
              \<and> getConnectedUsersCount (fst (io_disconnect now st s)) T = 0)
     \<and> (connectedUsers st T = None \<longrightarrow> getConnectedUsersCount st T = 0)"
proof (intro conjI ballI impI)
  show "connectedUsers st T \<noteq> Some []"
    using reachable_presence [OF r, of T] by (auto split: if_splits)
next
  fix s
  assume live: "s \<in> set (sockets st)"
    and last: "sock_hotelId s = Some T \<and> (\<forall>t \<in> set (sockets st). sock_hotelId t = Some T \<longrightarrow> t = s)"
  let ?st' = "fst (io_disconnect now st s)"
  have r': "reachable ?st'" by (rule reachable.close [OF r live])
  from last have "filter (\<lambda>t. t \<noteq> s) (tenant_sockets st T) = []"
    by (auto simp: tenant_sockets_def filter_empty_conv)
  with tenant_sockets_after_close [OF r live, of now T] have "tenant_sockets ?st' T = []" by simp
  with reachable_presence [OF r', of T] show none: "connectedUsers ?st' T = None" by simp
  then show "getConnectedUsersCount ?st' T = 0" by (simp add: getConnectedUsersCount_def)
next
  assume "connectedUsers st T = None"
  then show "getConnectedUsersCount st T = 0" by (simp add: getConnectedUsersCount_def)
qed

theorem no_empty_presence_entry_witness:
  "reachable ex_st2 \<and> ex_sockB \<in> set (sockets ex_st2) \<and> sock_hotelId ex_sockB = Some 2
   \<and> connectedUsers ex_st2 2 = Some [''sB'']
   \<and> connectedUsers (fst (io_disconnect ex_now ex_st2 ex_sockB)) 2 = None
   \<and> getConnectedUsersCount (fst (io_disconnect ex_now ex_st2 ex_sockB)) 2 = 0"
proof -
  have live: "ex_sockB \<in> set (sockets ex_st2)" by (simp add: ex_sockets_st2)
  have before: "connectedUsers ex_st2 2 = Some [''sB'']"
    by (simp add: reachable_presence [OF ex_reachable_st2] tenant_sockets_def ex_sockets_st2)
  from no_empty_presence_entry [OF ex_reachable_st2, of 2 ex_now] live before
  show ?thesis
    using ex_reachable_st2 by (simp add: ex_sockets_st2)
qed

section \<open>Users without a hotel\<close>

text \<open>
  Claim C10. An active user with no hotel passes the middleware without a check of any
  subscription (the relation \<open>hotel\<close> is \<open>null\<close> exactly when the column
  \<open>hotel_id\<close> is, by the foreign key of \<open>users\<close>). The \<open>connection\<close>
  handler enters such a socket in \<open>socketToUser\<close> and leaves
  \<open>connectedUsers\<close> as it was. In every reachable state a live socket without a
  hotel is in \<open>socketToUser\<close> and in no set of \<open>connectedUsers\<close>, its
  identity is in no list and it is outside every count, \<open>broadcastToRole\<close> never
  emits to it, and its entry in \<open>socketToUser\<close> goes when it disconnects.
\<close>
theorem null_hotel_user_outside_presence:
  "(extract_token hs = Some t \<and> t \<noteq> [] \<and> jwt_verify t = Some d
      \<and> findUnique (userId d) = DbRow (Some u) \<and> isActive u \<and> user_hotel u = None
      \<longrightarrow> middleware jwt_verify findUnique sid hs = Inr (attach_user sid u)
          \<and> sock_hotelId (attach_user sid u) = user_hotelId u)
   \<and> (reachable st \<and> s \<in> set (sockets st) \<and> sock_hotelId s = None \<longrightarrow>
        socketToUser st (sock_id s) = Some (user_info_of s)
        \<and> (\<forall>T ids. connectedUsers st T = Some ids \<longrightarrow> sock_id s \<notin> set ids)
        \<and> (\<forall>T. user_info_of s \<notin> set (getConnectedUsers st T))
        \<and> (\<forall>T. T \<noteq> 0 \<longrightarrow> getConnectedUsersCount st T
                = length (filter (\<lambda>t. t \<noteq> s \<and> sock_hotelId t = Some T) (sockets st)))
        \<and> (\<forall>T R. sock_id s \<notin> recipients (broadcastToRole clock st T R event data))
        \<and> socketToUser (fst (io_disconnect now st s)) (sock_id s) = None)
   \<and> (sock_hotelId s = None \<longrightarrow>
        connectedUsers (fst (io_connection now st s)) = connectedUsers st
        \<and> socketToUser (fst (io_connection now st s)) (sock_id s) = Some (user_info_of s))"
proof (intro conjI impI allI)
  assume "extract_token hs = Some t \<and> t \<noteq> [] \<and> jwt_verify t = Some d
      \<and> findUnique (userId d) = DbRow (Some u) \<and> isActive u \<and> user_hotel u = None"
  then show "middleware jwt_verify findUnique sid hs = Inr (attach_user sid u)"
    by (simp add: middleware_def subscription_inactive_def)
next
  show "sock_hotelId (attach_user sid u) = user_hotelId u" by (simp add: attach_user_def)
next
  assume "sock_hotelId s = None"
  then show "connectedUsers (fst (io_connection now st s)) = connectedUsers st"
    by (simp add: connectedUsers_io_connection hotel_key_def)
next
  show "socketToUser (fst (io_connection now st s)) (sock_id s) = Some (user_info_of s)" by simp
next
  assume a: "reachable st \<and> s \<in> set (sockets st) \<and> sock_hotelId s = None"
  then have r: "reachable st" and live: "s \<in> set (sockets st)" and null: "sock_hotelId s = None"
    by simp_all
  from r have dist: "ids_distinct st" using reachable_invariants by blast
  show "socketToUser st (sock_id s) = Some (user_info_of s)" by (rule reachable_index [OF r live])
  show "socketToUser (fst (io_disconnect now st s)) (sock_id s) = None" by simp
  {
    fix T ids assume cu: "connectedUsers st T = Some ids"
    show "sock_id s \<notin> set ids"
    proof
      assume "sock_id s \<in> set ids"
      with cu reachable_presence [OF r, of T]
      obtain t where t: "t \<in> set (sockets st)" "sock_hotelId t = Some T" "sock_id t = sock_id s"
        by (auto simp: tenant_sockets_def split: if_splits)
      from same_id_same_socket [OF dist live t(1,3)] t(2) null show False by simp
    qed
  }
  {
    fix T
    show "user_info_of s \<notin> set (getConnectedUsers st T)"
    proof (cases "T = 0")
      case True
      with list_zero [OF r] show ?thesis by simp
    next
      case False
      have "user_info_of s \<notin> user_info_of ` set (tenant_sockets st T)"
      proof
        assume "user_info_of s \<in> user_info_of ` set (tenant_sockets st T)"
        then obtain t where t: "t \<in> set (tenant_sockets st T)"
          and e: "user_info_of s = user_info_of t" by blast
        from t have "sock_hotelId t = Some T" by (simp add: tenant_sockets_def)
        moreover from e have "info_hotelId (user_info_of s) = info_hotelId (user_info_of t)" by simp
        ultimately show False using null by (simp add: user_info_of_def)
      qed
      then show ?thesis by (simp add: list_exact [OF r False])
    qed
  }
  {
    fix T :: int assume T: "T \<noteq> 0"
    have "filter (\<lambda>t. t \<noteq> s \<and> sock_hotelId t = Some T) (sockets st) = tenant_sockets st T"
      unfolding tenant_sockets_def using null by (intro filter_cong) auto
    then show "getConnectedUsersCount st T
        = length (filter (\<lambda>t. t \<noteq> s \<and> sock_hotelId t = Some T) (sockets st))"
      by (simp add: count_exact [OF r T])
  }
  {
    fix T R
    show "sock_id s \<notin> recipients (broadcastToRole clock st T R event data)"
    proof
      assume "sock_id s \<in> recipients (broadcastToRole clock st T R event data)"
      with broadcastToRole_recipients [OF r, of clock T R event data] obtain t where
        t: "t \<in> set (sockets st)" "sock_hotelId t = Some T" "sock_id t = sock_id s"
        by auto
      from same_id_same_socket [OF dist live t(1,3)] t(2) null show False by simp
    qed
  }
qed

theorem null_hotel_user_outside_presence_witness:
  "reachable ex_adm \<and> ex_sockP \<in> set (sockets ex_adm) \<and> sock_hotelId ex_sockP = None
   \<and> middleware ex_verify ex_findUnique ''sP'' (ex_hs ''admin'') = Inr ex_sockP
   \<and> socketToUser ex_adm ''sP'' = Some (user_info_of ex_sockP)
   \<and> getConnectedUsersCount ex_adm 1 = 1
   \<and> user_info_of ex_sockP \<notin> set (getConnectedUsers ex_adm 1)
   \<and> ''sP'' \<notin> recipients (broadcastToRole ex_clock ex_adm 1 ''platform_admin'' ''x'' [])
   \<and> socketToUser (fst (io_disconnect ex_now ex_adm ex_sockP)) ''sP'' = None"
proof -
  have live: "ex_sockP \<in> set (sockets ex_adm)" by (simp add: ex_sockets_adm)
  have null: "sock_hotelId ex_sockP = None" by simp
  have mw: "middleware ex_verify ex_findUnique ''sP'' (ex_hs ''admin'') = Inr ex_sockP"
    by (simp add: ex_auth ex_users ex_sockP_def)
  have ne: "ex_sockA \<noteq> ex_sockP" by (auto dest: arg_cong [where f = sock_id])
  from null_hotel_user_outside_presence
    [where hs = "ex_hs ''admin''" and t = "''admin''" and jwt_verify = ex_verify
       and d = "\<lparr>userId = 4\<rparr>" and findUnique = ex_findUnique and u = ex_admin
       and sid = "''sP''" and st = ex_adm and s = ex_sockP and clock = ex_clock
       and event = "''x''" and data = "[]" and now = ex_now]
    ex_reachable_adm live null mw ne
  show ?thesis by (simp add: ex_sockets_adm)
qed

end
